theory Spec2Isabelle
  imports
    Main
    "HOL-Library.Sublist"
    "HOL-Library.Word"
    "HOL-Library.Char_ord"
    "HOL-Library.List_Lexorder"
begin

section \<open>Package acquisition: shared values\<close>

text \<open>
  A Go \<open>string\<close> is a sequence of bytes; it is modelled as \<open>string\<close> (a list of
  8-bit characters). File contents and digests are lists of bytes.
\<close>

type_synonym byte = "8 word"

unbundle bit_operations_syntax

text \<open>
  Go error values. \<open>PathError op path\<close> is the operating system refusing operation
  \<open>op\<close> on \<open>path\<close>; \<open>AdapterError msg\<close> is an error returned by the device adapter;
  \<open>Errorf prefix e\<close> is \<open>fmt.Errorf(prefix + ": %v", e)\<close>; \<open>SkipDir\<close> is the sentinel
  \<open>filepath.SkipDir\<close>; \<open>Panic\<close> is a run-time panic (a nil pointer dereference);
  \<open>JSONError\<close> is an error of package \<open>encoding/json\<close> or of a JSON method of a type.
\<close>

datatype error =
    PathError string string
  | AdapterError string
  | Errorf string error
  | SkipDir
  | Panic string
  | JSONError string

text \<open>
  \<open>time.Time\<close>: an instant (nanoseconds since the zero time, January 1 of year 1,
  00:00:00 UTC) and the location it is presented in. \<open>UTC_of\<close> is the method
  \<open>Time.UTC()\<close>; \<open>Now clock\<close> is \<open>time.Now()\<close> when the wall clock reads \<open>clock\<close>.
\<close>

datatype zone = UTC | Local

record Time =
  instant :: int
  loc :: zone

definition zeroTime :: Time where
  "zeroTime = \<lparr>instant = 0, loc = UTC\<rparr>"

definition Now :: "int \<Rightarrow> Time" where
  "Now clock = \<lparr>instant = clock, loc = Local\<rparr>"

definition UTC_of :: "Time \<Rightarrow> Time" where
  "UTC_of t = t\<lparr>loc := UTC\<rparr>"

text \<open>
  Modelled from the spec: the Device Bootstrap Adapter (package \<open>adb\<close>, not among the
  sources). Section 6 of the specification gives its interface: \<open>queryState\<close>,
  \<open>runShell(command)\<close> and \<open>provisionCollector(tmpDir, cpuAbi)\<close>, each a blocking call
  that returns a result or an error. A handle is the record of what these calls answer.
  The Collector type \<open>'c\<close> is declared in the same package and stays a parameter.
\<close>

record 'c adb =
  GetState :: "error + string"
  Shell :: "string \<Rightarrow> error + string"
  GetCollector :: "string \<Rightarrow> string \<Rightarrow> error + 'c"

text \<open>The struct \<open>Acquisition\<close>; a nil pointer is \<open>None\<close>.\<close>

record 'c Acquisition =
  UUID :: string
  ADB :: "'c adb option"
  StoragePath :: string
  APKSPath :: string
  LogsPath :: string
  Started :: Time
  Completed :: Time
  Collector :: "'c option"
  TmpDir :: string
  Cpu :: string

text \<open>The zero value \<open>Acquisition{}\<close>.\<close>

definition zeroAcquisition :: "'c Acquisition" where
  "zeroAcquisition =
     \<lparr>UUID = [], ADB = None, StoragePath = [], APKSPath = [], LogsPath = [],
      Started = zeroTime, Completed = zeroTime, Collector = None, TmpDir = [], Cpu = []\<rparr>"

section \<open>Package strings\<close>

text \<open>
  \<open>unicode.IsSpace\<close> holds of the code points U+0009..U+000D, U+0020, U+0085, U+00A0,
  U+1680, U+2000..U+200A, U+2028, U+2029, U+202F, U+205F and U+3000. \<open>spaceRunes\<close> lists
  their UTF-8 encodings: a string starts (ends) with a white space rune exactly when it
  starts (ends) with one of these byte sequences.
\<close>

definition spaceRunes :: "string list" where
  "spaceRunes =
    [[CHR 0x09], [CHR 0x0A], [CHR 0x0B], [CHR 0x0C], [CHR 0x0D], [CHR 0x20],
     [CHR 0xC2, CHR 0x85], [CHR 0xC2, CHR 0xA0],
     [CHR 0xE1, CHR 0x9A, CHR 0x80],
     [CHR 0xE2, CHR 0x80, CHR 0x80], [CHR 0xE2, CHR 0x80, CHR 0x81],
     [CHR 0xE2, CHR 0x80, CHR 0x82], [CHR 0xE2, CHR 0x80, CHR 0x83],
     [CHR 0xE2, CHR 0x80, CHR 0x84], [CHR 0xE2, CHR 0x80, CHR 0x85],
     [CHR 0xE2, CHR 0x80, CHR 0x86], [CHR 0xE2, CHR 0x80, CHR 0x87],
     [CHR 0xE2, CHR 0x80, CHR 0x88], [CHR 0xE2, CHR 0x80, CHR 0x89],
     [CHR 0xE2, CHR 0x80, CHR 0x8A],
     [CHR 0xE2, CHR 0x80, CHR 0xA8], [CHR 0xE2, CHR 0x80, CHR 0xA9],
     [CHR 0xE2, CHR 0x80, CHR 0xAF],
     [CHR 0xE2, CHR 0x81, CHR 0x9F],
     [CHR 0xE3, CHR 0x80, CHR 0x80]]"

text \<open>The number of bytes of the white space rune a string starts (ends) with; 0 if none.\<close>

definition leadingSpace :: "string \<Rightarrow> nat" where
  "leadingSpace s = (case find (\<lambda>q. prefix q s) spaceRunes of None \<Rightarrow> 0 | Some q \<Rightarrow> length q)"

definition trailingSpace :: "string \<Rightarrow> nat" where
  "trailingSpace s = (case find (\<lambda>q. suffix q s) spaceRunes of None \<Rightarrow> 0 | Some q \<Rightarrow> length q)"

lemma spaceRunes_nonempty: "q \<in> set spaceRunes \<Longrightarrow> q \<noteq> []"
  by (auto simp: spaceRunes_def)

lemma leadingSpace_pos: "0 < leadingSpace s \<Longrightarrow> 0 < length s"
  by (auto simp: leadingSpace_def find_Some_iff spaceRunes_nonempty
      split: option.splits)

lemma trailingSpace_pos: "0 < trailingSpace s \<Longrightarrow> 0 < length s"
  by (auto simp: trailingSpace_def find_Some_iff spaceRunes_nonempty
      split: option.splits)

text \<open>\<open>strings.TrimLeftFunc(s, unicode.IsSpace)\<close> and \<open>strings.TrimRightFunc\<close>.\<close>

function TrimLeft :: "string \<Rightarrow> string" where
  "TrimLeft s = (if leadingSpace s = 0 then s else TrimLeft (drop (leadingSpace s) s))"
  by pat_completeness auto
termination
  by (relation "measure length") (auto dest: leadingSpace_pos intro: diff_less)

function TrimRight :: "string \<Rightarrow> string" where
  "TrimRight s =
     (if trailingSpace s = 0 then s else TrimRight (take (length s - trailingSpace s) s))"
  by pat_completeness auto
termination
  by (relation "measure length") (auto dest: trailingSpace_pos intro: diff_less)

declare TrimLeft.simps [simp del] TrimRight.simps [simp del]

text \<open>
  \<open>strings.TrimSpace\<close>: all leading and trailing white space removed, as defined by
  Unicode.
\<close>

definition TrimSpace :: "string \<Rightarrow> string" where
  "TrimSpace s = TrimRight (TrimLeft s)"

definition HasPrefix :: "string \<Rightarrow> string \<Rightarrow> bool" where
  "HasPrefix s p = prefix p s"

definition TrimPrefix :: "string \<Rightarrow> string \<Rightarrow> string" where
  "TrimPrefix s p = (if HasPrefix s p then drop (length p) s else s)"

text \<open>\<open>strings.Split(s, sep)\<close> for a separator of one byte: the pieces between separators.\<close>

fun Split :: "string \<Rightarrow> char \<Rightarrow> string list" where
  "Split [] sep = [[]]"
| "Split (c # cs) sep =
     (if c = sep then [] # Split cs sep
      else (case Split cs sep of [] \<Rightarrow> [[c]] | l # ls \<Rightarrow> (c # l) # ls))"

section \<open>System information probe\<close>

text \<open>
  The body of the \<open>for ... range strings.Split(out, "\n")\<close> loop of
  \<open>GetSystemInformation\<close>: one line (not yet trimmed) updates \<open>tmpFolder\<close>.
\<close>

definition tmpFolderStep :: "string \<Rightarrow> string \<Rightarrow> string" where
  "tmpFolderStep tmpFolder line0 =
     (let line = TrimSpace line0 in
      if HasPrefix line ''TMPDIR='' then TrimPrefix line ''TMPDIR='' else tmpFolder)"

text \<open>The loop and the fallback that follows it.\<close>

definition resolveTmpFolder :: "string \<Rightarrow> string" where
  "resolveTmpFolder out =
     (let tmpFolder = foldl tmpFolderStep [] (Split out (CHR 0x0A)) in
      if tmpFolder = [] then ''/data/local/tmp'' else tmpFolder)"

text \<open>
  \<open>GetSystemInformation\<close> mutates its receiver and returns an error or nil: the model
  returns the error (if any) and the receiver as the call leaves it.
\<close>

definition GetSystemInformation :: "'c Acquisition \<Rightarrow> error option \<times> 'c Acquisition" where
  "GetSystemInformation a =
     (case ADB a of
        None \<Rightarrow> (Some (Panic ''nil pointer dereference''), a)
      | Some d \<Rightarrow>
          (case Shell d ''getprop ro.product.cpu.abi'' of
             Inl err \<Rightarrow> (Some err, a)
           | Inr out \<Rightarrow>
               (let a1 = a\<lparr>Cpu := out\<rparr> in
                case Shell d ''env'' of
                  Inl err \<Rightarrow> (Some (Errorf ''failed to run `adb shell env`'' err), a1)
                | Inr out2 \<Rightarrow> (None, a1\<lparr>TmpDir := resolveTmpFolder out2\<rparr>))))"

text \<open>
  The trimmed lines of an environment dump that carry the prefix \<open>TMPDIR=\<close>, in the
  order of the dump.
\<close>

definition tmpdirLines :: "string \<Rightarrow> string list" where
  "tmpdirLines out =
     filter (\<lambda>l. HasPrefix l ''TMPDIR='') (map TrimSpace (Split out (CHR 0x0A)))"

text \<open>Inputs of the examples: an adapter that answers the two queries of the probe.\<close>

definition probeAdapter :: "string \<Rightarrow> unit adb" where
  "probeAdapter dump =
     \<lparr>GetState = Inr ''device'',
      Shell = (\<lambda>cmd. if cmd = ''env'' then Inr dump else Inr ''arm64-v8a''),
      GetCollector = (\<lambda>tmp cpu. Inr ())\<rparr>"

definition probeAcquisition :: "string \<Rightarrow> unit Acquisition" where
  "probeAcquisition dump = zeroAcquisition\<lparr>ADB := Some (probeAdapter dump)\<rparr>"

section \<open>Lifecycle controller\<close>

subsection \<open>Session identifier\<close>

text \<open>
  \<open>uuid.NewV4()\<close> of \<open>github.com/satori/go.uuid\<close>: sixteen random bytes, of which
  \<open>SetVersion(V4)\<close> overwrites the high half of byte 6 and \<open>SetVariant(VariantRFC4122)\<close>
  the two top bits of byte 8. \<open>rnd i\<close> is the i-th byte the random source delivers.
\<close>

definition SetVersion :: "byte \<Rightarrow> byte list \<Rightarrow> byte list" where
  "SetVersion v u = u[6 := ((u ! 6) AND 0x0f) OR (push_bit 4 v)]"

definition SetVariantRFC4122 :: "byte list \<Rightarrow> byte list" where
  "SetVariantRFC4122 u = u[8 := ((u ! 8) AND (drop_bit 2 0xff)) OR (push_bit 6 0x02)]"

definition NewV4 :: "(nat \<Rightarrow> byte) \<Rightarrow> byte list" where
  "NewV4 rnd = SetVariantRFC4122 (SetVersion 4 (map rnd [0..<16]))"

text \<open>\<open>hex.Encode\<close>: two lower-case hexadecimal digits per byte.\<close>

definition hextable :: string where
  "hextable = ''0123456789abcdef''"

definition hexByte :: "byte \<Rightarrow> string" where
  "hexByte b = [hextable ! unat (drop_bit 4 b), hextable ! unat (b AND 0x0f)]"

definition hexEncode :: "byte list \<Rightarrow> string" where
  "hexEncode bs = concat (map hexByte bs)"

text \<open>\<open>UUID.String()\<close>: the canonical form \<open>xxxxxxxx-xxxx-xxxx-xxxx-xxxxxxxxxxxx\<close>.\<close>

definition uuidString :: "byte list \<Rightarrow> string" where
  "uuidString u =
     hexEncode (take 4 u) @ ''-'' @ hexEncode (take 2 (drop 4 u)) @ ''-'' @
     hexEncode (take 2 (drop 6 u)) @ ''-'' @ hexEncode (take 2 (drop 8 u)) @ ''-'' @
     hexEncode (drop 10 u)"

text \<open>
  The canonical text form of a version-4 UUID (RFC 4122): 36 characters, hyphens at
  positions 8, 13, 18 and 23, lower-case hexadecimal digits elsewhere, the version digit
  \<open>4\<close> at position 14 and a variant digit \<open>8\<close>, \<open>9\<close>, \<open>a\<close> or \<open>b\<close> at position 19.
\<close>

definition isUUIDv4 :: "string \<Rightarrow> bool" where
  "isUUIDv4 s =
     (length s = 36 \<and>
      [s ! 8, s ! 13, s ! 18, s ! 23] = ''----'' \<and>
      list_all (\<lambda>c. c \<in> set hextable)
        (take 8 s @ take 4 (drop 9 s) @ take 4 (drop 14 s) @ take 4 (drop 19 s) @ drop 24 s) \<and>
      s ! 14 = CHR ''4'' \<and> s ! 19 \<in> set ''89ab'')"

subsection \<open>New and initADB\<close>

text \<open>
  \<open>initADB\<close>. \<open>adbNew\<close> is what \<open>adb.New()\<close> answers (the specification's
  \<open>connect() -> adapter | InitializationError\<close>): an error, or a handle.
\<close>

definition initADB :: "error + 'c adb \<Rightarrow> 'c Acquisition \<Rightarrow> error option \<times> 'c Acquisition" where
  "initADB adbNew a =
     (case adbNew of
        Inl err \<Rightarrow> (Some (Errorf ''failed to initialize adb'' err), a\<lparr>ADB := None\<rparr>)
      | Inr d \<Rightarrow>
          (let a1 = a\<lparr>ADB := Some d\<rparr> in
           case GetState d of
             Inl err \<Rightarrow>
               (Some (Errorf ''failed to get adb state (are you sure a device is connected?)'' err),
                a1)
           | Inr st \<Rightarrow> (None, a1)))"

text \<open>
  \<open>New\<close> returns \<open>(nil, err)\<close> or \<open>(&acq, nil)\<close>: an error or an Acquisition. Its
  environment: the random source, the reading of the wall clock, and the adapter's answer.
\<close>

definition New :: "(nat \<Rightarrow> byte) \<Rightarrow> int \<Rightarrow> error + 'c adb \<Rightarrow> error + 'c Acquisition" where
  "New rnd clock adbNew =
     (let acq = zeroAcquisition;
          uuidBytes = NewV4 rnd;
          acq1 = acq\<lparr>UUID := uuidString uuidBytes\<rparr>;
          acq2 = acq1\<lparr>Started := UTC_of (Now clock)\<rparr>
      in case initADB adbNew acq2 of
           (Some err, acq3) \<Rightarrow> Inl (Errorf ''failed to initialize adb'' err)
         | (None, acq3) \<Rightarrow> Inr acq3)"

text \<open>
  A device is reachable when the adapter bootstrap and the device state query both
  succeed.
\<close>

definition deviceReachable :: "error + 'c adb \<Rightarrow> bool" where
  "deviceReachable adbNew =
     (case adbNew of
        Inl err \<Rightarrow> False
      | Inr d \<Rightarrow> (case GetState d of Inl err \<Rightarrow> False | Inr st \<Rightarrow> True))"

subsection \<open>Complete\<close>

text \<open>
  Modelled from the spec: \<open>Collector.Clean\<close> and \<open>assets.CleanAssets\<close> are not among the
  sources. Section 6 of the specification gives them as \<open>release() -> void\<close> and
  \<open>cleanAll() -> void\<close>: calls made for their effect, with no result. The model records
  each call as an event, in the order the calls are made.
\<close>

datatype 'c event = CollectorClean 'c | CleanAssets

text \<open>
  \<open>Complete\<close> has no result; it mutates its receiver and calls the two collaborators.
  The model returns the receiver as the call leaves it and the events of the call.
\<close>

definition Complete :: "int \<Rightarrow> 'c Acquisition \<Rightarrow> 'c Acquisition \<times> 'c event list" where
  "Complete clock a =
     (let a1 = a\<lparr>Completed := UTC_of (Now clock)\<rparr>;
          ev1 = (case Collector a1 of None \<Rightarrow> [] | Some c \<Rightarrow> [CollectorClean c])
      in (a1, ev1 @ [CleanAssets]))"

section \<open>Package filepath\<close>

text \<open>
  \<open>filepath.Clean\<close> and \<open>filepath.Join\<close> where the separator is \<open>/\<close>. \<open>Clean\<close> reads
  the path element by element: an empty element and \<open>.\<close> are dropped; \<open>..\<close> removes the
  element before it, is dropped at the root, and is kept at the start of a path that is
  not rooted. \<open>cleanStep\<close> holds the elements kept so far, the last one first.
\<close>

definition cleanStep :: "bool \<Rightarrow> string list \<Rightarrow> string \<Rightarrow> string list" where
  "cleanStep rooted kept e =
     (if e = [] \<or> e = ''.'' then kept
      else if e = ''..'' then
        (case kept of
           [] \<Rightarrow> if rooted then [] else [e]
         | prev # rest \<Rightarrow> if prev = ''..'' then e # kept else rest)
      else e # kept)"

fun joinWith :: "string \<Rightarrow> string list \<Rightarrow> string" where
  "joinWith sep [] = []"
| "joinWith sep [x] = x"
| "joinWith sep (x # y # ys) = x @ sep @ joinWith sep (y # ys)"

definition Clean :: "string \<Rightarrow> string" where
  "Clean path =
     (if path = [] then ''.''
      else
        (let rooted = (hd path = CHR ''/'');
             out = joinWith ''/'' (rev (foldl (cleanStep rooted) [] (Split path (CHR ''/''))))
         in if rooted then CHR ''/'' # out else if out = [] then ''.'' else out))"

text \<open>\<open>filepath.Join\<close> of two elements: empty elements are ignored, the result is cleaned.\<close>

definition Join :: "string \<Rightarrow> string \<Rightarrow> string" where
  "Join a b =
     (if a \<noteq> [] then Clean (a @ ''/'' @ b)
      else if b \<noteq> [] then Clean b
      else [])"

section \<open>Filesystem staging\<close>

text \<open>
  \<open>os.Mkdir\<close>. The state is the list of directories that exist, in the order of their
  creation; \<open>refused\<close> holds of the paths the operating system refuses to create for a
  reason of its own (permissions, a missing parent). A path that exists is refused too.
\<close>

definition Mkdir :: "(string \<Rightarrow> bool) \<Rightarrow> string list \<Rightarrow> string \<Rightarrow> error + string list" where
  "Mkdir refused dirs path =
     (if path \<in> set dirs \<or> refused path then Inl (PathError ''mkdir'' path)
      else Inr (dirs @ [path]))"

text \<open>
  \<open>createFolders\<close>. \<open>exeDir\<close> is what \<open>saveRuntime.GetExecutableDirectory()\<close> answers.
  The model returns the error (if any), the receiver and the directories as the call
  leaves them.
\<close>

definition createFolders ::
  "string \<Rightarrow> (string \<Rightarrow> bool) \<Rightarrow> 'c Acquisition \<Rightarrow> string list \<Rightarrow>
     error option \<times> 'c Acquisition \<times> string list" where
  "createFolders exeDir refused a dirs =
     (let a1 = a\<lparr>StoragePath := Join exeDir (UUID a)\<rparr> in
      case Mkdir refused dirs (StoragePath a1) of
        Inl err \<Rightarrow> (Some err, a1, dirs)
      | Inr dirs1 \<Rightarrow>
          (let a2 = a1\<lparr>APKSPath := Join (StoragePath a1) ''apks''\<rparr> in
           case Mkdir refused dirs1 (APKSPath a2) of
             Inl err \<Rightarrow> (Some err, a2, dirs1)
           | Inr dirs2 \<Rightarrow>
               (let a3 = a2\<lparr>LogsPath := Join (StoragePath a2) ''logs''\<rparr> in
                case Mkdir refused dirs2 (LogsPath a3) of
                  Inl err \<Rightarrow> (Some err, a3, dirs2)
                | Inr dirs3 \<Rightarrow> (None, a3, dirs3))))"

section \<open>Package crypto/sha256\<close>

text \<open>
  SHA-256 as FIPS 180-4 defines it, on 32-bit words: the round constants, the initial
  hash value, the functions of section 4.1.2, the message schedule, the compression of
  one 64-byte block, the padding, and the digest of a message.
\<close>

type_synonym w32 = "32 word"

definition K256 :: "w32 list" where
  "K256 = [
   0x428A2F98, 0x71374491, 0xB5C0FBCF, 0xE9B5DBA5, 0x3956C25B, 0x59F111F1, 0x923F82A4, 0xAB1C5ED5,
   0xD807AA98, 0x12835B01, 0x243185BE, 0x550C7DC3, 0x72BE5D74, 0x80DEB1FE, 0x9BDC06A7, 0xC19BF174,
   0xE49B69C1, 0xEFBE4786, 0x0FC19DC6, 0x240CA1CC, 0x2DE92C6F, 0x4A7484AA, 0x5CB0A9DC, 0x76F988DA,
   0x983E5152, 0xA831C66D, 0xB00327C8, 0xBF597FC7, 0xC6E00BF3, 0xD5A79147, 0x06CA6351, 0x14292967,
   0x27B70A85, 0x2E1B2138, 0x4D2C6DFC, 0x53380D13, 0x650A7354, 0x766A0ABB, 0x81C2C92E, 0x92722C85,
   0xA2BFE8A1, 0xA81A664B, 0xC24B8B70, 0xC76C51A3, 0xD192E819, 0xD6990624, 0xF40E3585, 0x106AA070,
   0x19A4C116, 0x1E376C08, 0x2748774C, 0x34B0BCB5, 0x391C0CB3, 0x4ED8AA4A, 0x5B9CCA4F, 0x682E6FF3,
   0x748F82EE, 0x78A5636F, 0x84C87814, 0x8CC70208, 0x90BEFFFA, 0xA4506CEB, 0xBEF9A3F7, 0xC67178F2]"

definition H256 :: "w32 list" where
  "H256 = [0x6A09E667, 0xBB67AE85, 0x3C6EF372, 0xA54FF53A, 0x510E527F, 0x9B05688C, 0x1F83D9AB, 0x5BE0CD19]"

definition rotr :: "nat \<Rightarrow> w32 \<Rightarrow> w32" where
  "rotr n x = (drop_bit n x) OR (push_bit (32 - n) x)"

definition ssig0 :: "w32 \<Rightarrow> w32" where
  "ssig0 x = rotr 7 x XOR rotr 18 x XOR drop_bit 3 x"

definition ssig1 :: "w32 \<Rightarrow> w32" where
  "ssig1 x = rotr 17 x XOR rotr 19 x XOR drop_bit 10 x"

definition bsig0 :: "w32 \<Rightarrow> w32" where
  "bsig0 x = rotr 2 x XOR rotr 13 x XOR rotr 22 x"

definition bsig1 :: "w32 \<Rightarrow> w32" where
  "bsig1 x = rotr 6 x XOR rotr 11 x XOR rotr 25 x"

definition Ch :: "w32 \<Rightarrow> w32 \<Rightarrow> w32 \<Rightarrow> w32" where
  "Ch x y z = (x AND y) XOR (NOT x AND z)"

definition Maj :: "w32 \<Rightarrow> w32 \<Rightarrow> w32 \<Rightarrow> w32" where
  "Maj x y z = (x AND y) XOR (x AND z) XOR (y AND z)"

text \<open>The big-endian words of a block.\<close>

fun be32 :: "byte list \<Rightarrow> w32 list" where
  "be32 (a # b # c # d # r) =
     (push_bit 24 (ucast a) OR push_bit 16 (ucast b) OR push_bit 8 (ucast c) OR ucast d) # be32 r"
| "be32 r = []"

text \<open>
  The message schedule, the newest word first: each step adds \<open>W\<^sub>t\<close> from \<open>W\<^sub>t\<^sub>-\<^sub>2\<close>,
  \<open>W\<^sub>t\<^sub>-\<^sub>7\<close>, \<open>W\<^sub>t\<^sub>-\<^sub>1\<^sub>5\<close> and \<open>W\<^sub>t\<^sub>-\<^sub>1\<^sub>6\<close>.
\<close>

fun messageSchedule :: "nat \<Rightarrow> w32 list \<Rightarrow> w32 list" where
  "messageSchedule 0 ws = ws"
| "messageSchedule (Suc n) ws =
     messageSchedule n ((ssig1 (ws ! 1) + ws ! 6 + ssig0 (ws ! 14) + ws ! 15) # ws)"

text \<open>One round on the working variables \<open>a, ..., h\<close>.\<close>

fun sha256Round :: "w32 list \<Rightarrow> w32 \<times> w32 \<Rightarrow> w32 list" where
  "sha256Round [a, b, c, d, e, f, g, h] (k, w) =
     (let t1 = h + bsig1 e + Ch e f g + k + w;
          t2 = bsig0 a + Maj a b c
      in [t1 + t2, a, b, c, d + t1, e, f, g])"
| "sha256Round s kw = s"

definition sha256Block :: "w32 list \<Rightarrow> byte list \<Rightarrow> w32 list" where
  "sha256Block hs blk =
     (let ws = rev (messageSchedule 48 (rev (be32 blk)));
          s = foldl sha256Round hs (zip K256 ws)
      in map2 (+) hs s)"

text \<open>
  Padding: the byte \<open>0x80\<close>, zero bytes up to 56 modulo 64, and the length of the message
  in bits as a big-endian 64-bit word.
\<close>

definition sha256Pad :: "byte list \<Rightarrow> byte list" where
  "sha256Pad m =
     (let l = length m;
          z = (119 - l mod 64) mod 64
      in m @ [0x80] @ replicate z 0 @
         map (\<lambda>i. ucast (drop_bit (8 * (7 - i)) (of_nat (8 * l) :: 64 word))) [0..<8])"

fun sha256Blocks :: "nat \<Rightarrow> byte list \<Rightarrow> byte list list" where
  "sha256Blocks 0 m = []"
| "sha256Blocks (Suc n) m = take 64 m # sha256Blocks n (drop 64 m)"

text \<open>The digest: 32 bytes.\<close>

definition SHA256 :: "byte list \<Rightarrow> byte list" where
  "SHA256 m =
     (let p = sha256Pad m;
          hs = foldl sha256Block H256 (sha256Blocks (length p div 64) p)
      in concat (map (\<lambda>h. map (\<lambda>i. ucast (drop_bit (8 * (3 - i)) h)) [0..<4]) hs))"

section \<open>Artifact integrity recorder\<close>

subsection \<open>The evidence tree\<close>

text \<open>
  What \<open>filepath.Walk\<close> finds at \<open>StoragePath\<close>, that is once \<open>os.Create\<close> has
  returned, presented as the calls of the walk read it:
  \<^item> \<open>Dir es\<close>: a directory whose listing succeeds; \<open>es\<close> holds its entries in the
    order of the listing (\<open>filepath.Walk\<close> visits them sorted by name);
  \<^item> \<open>Unlisted\<close>: a directory whose listing fails;
  \<^item> \<open>File k c\<close>: an entry that is not a directory. \<open>k\<close> tells a regular file from
    any other kind (a symbolic link, a device, a socket); \<open>c\<close> holds the bytes that
    opening and reading the path yields, or \<open>None\<close> when that fails;
  \<^item> \<open>Manifest\<close>: an entry through which the walk reads the file that \<open>HashFiles\<close>
    is writing: \<open>hashes.csv\<close> as \<open>os.Create\<close> has created or truncated it (or a link
    to it);
  \<^item> \<open>Vanished\<close>: a name of a listing (or the root) whose \<open>lstat\<close> fails.
\<close>

datatype kind = Regular | Irregular

datatype node =
    Dir "(string \<times> node) list"
  | Unlisted
  | File kind "byte list option"
  | Manifest
  | Vanished

text \<open>\<open>FileInfo.IsDir()\<close>.\<close>

fun IsDir :: "node \<Rightarrow> bool" where
  "IsDir (Dir es) = True"
| "IsDir Unlisted = True"
| "IsDir n = False"

subsection \<open>filepath.Walk\<close>

text \<open>
  \<open>filepath.WalkFunc\<close>: the path, the \<open>FileInfo\<close> (nil when \<open>lstat\<close> failed), the error
  of reaching the entry (nil when there is none); it returns an error or nil. \<open>'s\<close> is
  the state the function closes over.
\<close>

type_synonym 's WalkFunc = "string \<Rightarrow> node option \<Rightarrow> error option \<Rightarrow> 's \<Rightarrow> error option \<times> 's"

text \<open>
  \<open>walk\<close> is the recursive function of package \<open>filepath\<close>, \<open>walkNames\<close> its loop over
  the names of a directory. A directory is listed first, and \<open>walkFn\<close> is called with the
  error of the listing; when either fails \<open>walk\<close> returns what \<open>walkFn\<close> returned. A name
  whose \<open>lstat\<close> fails is reported to \<open>walkFn\<close>, and the loop goes on only if \<open>walkFn\<close>
  returns nil or \<open>SkipDir\<close>. An error from a sub-walk ends the loop unless it is
  \<open>SkipDir\<close> for a directory. \<open>walk\<close> is entered only after a successful \<open>lstat\<close>: its
  equation for \<open>Vanished\<close> is never used.
\<close>

fun walk :: "'s WalkFunc \<Rightarrow> string \<Rightarrow> node \<Rightarrow> 's \<Rightarrow> error option \<times> 's"
  and walkNames :: "'s WalkFunc \<Rightarrow> string \<Rightarrow> (string \<times> node) list \<Rightarrow> 's \<Rightarrow> error option \<times> 's"
where
  "walk walkFn path (Dir es) s =
     (case walkFn path (Some (Dir es)) None s of
        (Some err1, s1) \<Rightarrow> (Some err1, s1)
      | (None, s1) \<Rightarrow> walkNames walkFn path es s1)"
| "walk walkFn path Unlisted s = walkFn path (Some Unlisted) (Some (PathError ''open'' path)) s"
| "walk walkFn path (File k c) s = walkFn path (Some (File k c)) None s"
| "walk walkFn path Manifest s = walkFn path (Some Manifest) None s"
| "walk walkFn path Vanished s = (None, s)"
| "walkNames walkFn path [] s = (None, s)"
| "walkNames walkFn path ((name, n) # rest) s =
     (let filename = Join path name in
      if n = Vanished then
        (case walkFn filename None (Some (PathError ''lstat'' filename)) s of
           (Some err, s1) \<Rightarrow>
             if err \<noteq> SkipDir then (Some err, s1) else walkNames walkFn path rest s1
         | (None, s1) \<Rightarrow> walkNames walkFn path rest s1)
      else
        (case walk walkFn filename n s of
           (Some err, s1) \<Rightarrow>
             if \<not> IsDir n \<or> err \<noteq> SkipDir then (Some err, s1)
             else walkNames walkFn path rest s1
         | (None, s1) \<Rightarrow> walkNames walkFn path rest s1))"

text \<open>\<open>filepath.Walk\<close>: \<open>lstat\<close> of the root, the walk, and \<open>SkipDir\<close> turned into nil.\<close>

definition Walk :: "'s WalkFunc \<Rightarrow> string \<Rightarrow> node \<Rightarrow> 's \<Rightarrow> error option \<times> 's" where
  "Walk fn root n s =
     (case (if n = Vanished then fn root None (Some (PathError ''lstat'' root)) s
            else walk fn root n s) of
        (err, s1) \<Rightarrow> (if err = Some SkipDir then None else err, s1))"

subsection \<open>HashFiles\<close>

text \<open>
  The manifest is written through \<open>csv.NewWriter(csvFile)\<close>, a buffered writer. Its state
  is the list of the rows it has accepted so far. What the operating system does with
  the file is the sink: \<open>Create path\<close> is the error of \<open>os.Create(path)\<close> (nil when the
  file is open for writing: whether it is depends on permissions, on what the name
  denotes and on the device, none of which the tree tells), \<open>flushed w\<close> are the bytes
  \<open>hashes.csv\<close> holds on disk once the rows \<open>w\<close> have been accepted (only what has left
  the buffer), and \<open>writeFails w\<close> tells whether \<open>csvWriter.Write\<close> of one more row
  after \<open>w\<close> returns an error.
\<close>

record sink =
  Create :: "string \<Rightarrow> error option"
  flushed :: "string list list \<Rightarrow> byte list"
  writeFails :: "string list list \<Rightarrow> bool"

text \<open>
  \<open>hashes.FileSHA256(filePath)\<close>: open the file, read it to the end, return the SHA-256 of
  its bytes in lower-case hexadecimal. \<open>n\<close> is the entry at \<open>filePath\<close>; the manifest
  file yields the bytes flushed to it at that moment.
\<close>

definition FileSHA256 :: "sink \<Rightarrow> string \<Rightarrow> node \<Rightarrow> string list list \<Rightarrow> error + string" where
  "FileSHA256 env filePath n w =
     (case n of
        File k (Some bytes) \<Rightarrow> Inr (hexEncode (SHA256 bytes))
      | File k None \<Rightarrow> Inl (PathError ''open'' filePath)
      | Manifest \<Rightarrow> Inr (hexEncode (SHA256 (flushed env w)))
      | Vanished \<Rightarrow> Inl (PathError ''open'' filePath)
      | _ \<Rightarrow> Inl (PathError ''read'' filePath))"

text \<open>\<open>csvWriter.Write(row)\<close>.\<close>

definition csvWrite :: "sink \<Rightarrow> string list list \<Rightarrow> string list \<Rightarrow> error + string list list" where
  "csvWrite env w row =
     (if writeFails env w then Inl (PathError ''write'' ''hashes.csv'') else Inr (w @ [row]))"

text \<open>
  The function literal that \<open>HashFiles\<close> passes to \<open>filepath.Walk\<close>. It closes over
  \<open>csvWriter\<close>: the state \<open>w\<close>.
\<close>

definition hashWalkFn :: "sink \<Rightarrow> string list list WalkFunc" where
  "hashWalkFn env filePath fileInfo err w =
     (case err of
        Some e \<Rightarrow> (Some e, w)
      | None \<Rightarrow>
          (case fileInfo of
             None \<Rightarrow> (Some (Panic ''nil pointer dereference''), w)
           | Some n \<Rightarrow>
               if IsDir n then (None, w)
               else
                 (case FileSHA256 env filePath n w of
                    Inl e \<Rightarrow> (Some e, w)
                  | Inr sha256 \<Rightarrow>
                      (case csvWrite env w [filePath, sha256] of
                         Inl e \<Rightarrow> (Some e, w)
                       | Inr w1 \<Rightarrow> (None, w1)))))"

text \<open>
  \<open>HashFiles\<close>: \<open>os.Create\<close> of \<open>hashes.csv\<close> under \<open>StoragePath\<close>, whose error is
  returned, then the walk of \<open>StoragePath\<close>, whose result is assigned to the blank
  identifier, then \<open>return nil\<close>. \<open>tree\<close> is what the walk finds. The model returns
  the error (if any) and the rows the csv writer has accepted when the function returns
  (\<open>None\<close> when the file was not created); the deferred \<open>Flush\<close> hands to the file
  what is still buffered.
\<close>

definition HashFiles ::
  "sink \<Rightarrow> 'c Acquisition \<Rightarrow> node \<Rightarrow> error option \<times> string list list option" where
  "HashFiles env a tree =
     (case Create env (Join (StoragePath a) ''hashes.csv'') of
        Some err \<Rightarrow> (Some err, None)
      | None \<Rightarrow>
          (case Walk (hashWalkFn env) (StoragePath a) tree [] of
             (err, w) \<Rightarrow> (None, Some w)))"

subsection \<open>The walk as a sequence of visits\<close>

text \<open>
  The entries of a tree with their paths, in the order \<open>filepath.Walk\<close> reaches them: a
  directory before its entries.
\<close>

fun entries :: "string \<Rightarrow> node \<Rightarrow> (string \<times> node) list"
  and entriesIn :: "string \<Rightarrow> (string \<times> node) list \<Rightarrow> (string \<times> node) list"
where
  "entries path (Dir es) = (path, Dir es) # entriesIn path es"
| "entries path Unlisted = [(path, Unlisted)]"
| "entries path (File k c) = [(path, File k c)]"
| "entries path Manifest = [(path, Manifest)]"
| "entries path Vanished = [(path, Vanished)]"
| "entriesIn path [] = []"
| "entriesIn path ((name, n) # rest) = entries (Join path name) n @ entriesIn path rest"

text \<open>One call of the function literal, for the entry at a path.\<close>

definition visit :: "sink \<Rightarrow> string \<times> node \<Rightarrow> string list list \<Rightarrow> error option \<times> string list list" where
  "visit env e w =
     (case e of
        (path, Vanished) \<Rightarrow> hashWalkFn env path None (Some (PathError ''lstat'' path)) w
      | (path, Unlisted) \<Rightarrow> hashWalkFn env path (Some Unlisted) (Some (PathError ''open'' path)) w
      | (path, n) \<Rightarrow> hashWalkFn env path (Some n) None w)"

text \<open>The calls in sequence, up to the first one that returns an error.\<close>

fun visitAll :: "sink \<Rightarrow> (string \<times> node) list \<Rightarrow> string list list \<Rightarrow> error option \<times> string list list" where
  "visitAll env [] w = (None, w)"
| "visitAll env (e # es) w =
     (case visit env e w of
        (Some err, w1) \<Rightarrow> (Some err, w1)
      | (None, w1) \<Rightarrow> visitAll env es w1)"

text \<open>
  An entry is readable when reaching it and reading it raises no error. \<open>files\<close> are the
  entries that are not directories. \<open>content\<close> are the bytes an entry holds at the moment
  it is read, and \<open>manifestOf\<close> the rows of a manifest that records each given entry
  once, in order, after the rows \<open>w\<close>.
\<close>

definition readable :: "node \<Rightarrow> bool" where
  "readable n =
     (case n of Vanished \<Rightarrow> False | Unlisted \<Rightarrow> False | File k None \<Rightarrow> False | _ \<Rightarrow> True)"

definition files :: "string \<Rightarrow> node \<Rightarrow> (string \<times> node) list" where
  "files path n = filter (\<lambda>e. \<not> IsDir (snd e)) (entries path n)"

definition content :: "sink \<Rightarrow> string list list \<Rightarrow> node \<Rightarrow> byte list" where
  "content env w n =
     (case n of File k (Some bytes) \<Rightarrow> bytes | Manifest \<Rightarrow> flushed env w | _ \<Rightarrow> [])"

fun manifestOf :: "sink \<Rightarrow> string list list \<Rightarrow> (string \<times> node) list \<Rightarrow> string list list" where
  "manifestOf env w [] = w"
| "manifestOf env w ((path, n) # fs) =
     manifestOf env (w @ [[path, hexEncode (SHA256 (content env w n))]]) fs"

text \<open>
  The storage directory \<open>Dir es\<close> as the walk finds it when \<open>os.Create\<close> has added
  \<open>hashes.csv\<close> to it as a new entry: listings are sorted by name.
\<close>

definition withManifest :: "(string \<times> node) list \<Rightarrow> node" where
  "withManifest es = Dir (insort_key fst (''hashes.csv'', Manifest) es)"

text \<open>
  Inputs of the examples: a sink whose file is created, that keeps every row in the
  buffer until the final flush and never fails, and an Acquisition staged at
  \<open>/opt/q/id\<close>.
\<close>

definition exampleSink :: sink where
  "exampleSink = \<lparr>Create = (\<lambda>p. None), flushed = (\<lambda>w. []), writeFails = (\<lambda>w. False)\<rparr>"

definition stagedAcquisition :: "unit Acquisition" where
  "stagedAcquisition = zeroAcquisition\<lparr>StoragePath := ''/opt/q/id''\<rparr>"

section \<open>Metadata persister\<close>

subsection \<open>Package encoding/json\<close>

text \<open>JSON values: what a JSON text denotes.\<close>

datatype json =
    JNull
  | JBool bool
  | JNumber string
  | JString string
  | JArray "json list"
  | JObject "(string \<times> json) list"







subsection \<open>The snapshot of an Acquisition\<close>









section \<open>Properties of the system information probe\<close>

lemma foldl_tmpFolderStep:
  "foldl tmpFolderStep acc ls =
     (let m = filter (\<lambda>l. HasPrefix l ''TMPDIR='') (map TrimSpace ls) in
      if m = [] then acc else drop 7 (last m))"
proof (induction ls arbitrary: acc)
  case Nil
  then show ?case by simp
next
  case (Cons l ls)
  show ?case
  proof (cases "HasPrefix (TrimSpace l) ''TMPDIR=''")
    case True
    then have "tmpFolderStep acc l = drop 7 (TrimSpace l)"
      by (simp add: tmpFolderStep_def TrimPrefix_def Let_def eval_nat_numeral)
    with True show ?thesis
      by (simp add: Cons.IH Let_def)
  next
    case False
    then have "tmpFolderStep acc l = acc"
      by (simp add: tmpFolderStep_def Let_def)
    with False show ?thesis
      by (simp add: Cons.IH Let_def)
  qed
qed

lemma resolveTmpFolder_last:
  "resolveTmpFolder out =
     (if tmpdirLines out = [] \<or> drop 7 (last (tmpdirLines out)) = []
      then ''/data/local/tmp'' else drop 7 (last (tmpdirLines out)))"
  by (simp add: resolveTmpFolder_def foldl_tmpFolderStep tmpdirLines_def Let_def)

lemma GetSystemInformation_ok:
  assumes "ADB a = Some d"
    and "Shell d ''getprop ro.product.cpu.abi'' = Inr cpu"
    and "Shell d ''env'' = Inr out"
  shows "GetSystemInformation a = (None, a\<lparr>Cpu := cpu, TmpDir := resolveTmpFolder out\<rparr>)"
  using assms by (simp add: GetSystemInformation_def)

lemma tmpdir_value_empty: "HasPrefix l ''TMPDIR='' \<Longrightarrow> drop 7 l = [] \<longleftrightarrow> l = ''TMPDIR=''"
  by (auto simp: HasPrefix_def prefix_def)

lemma tmpdirLines_last_prefix:
  "tmpdirLines out \<noteq> [] \<Longrightarrow> HasPrefix (last (tmpdirLines out)) ''TMPDIR=''"
  using last_in_set [of "tmpdirLines out"] by (auto simp: tmpdirLines_def)

text \<open>
  Claim C4, as the specification states it: the temp directory is taken from the first
  line that carries the prefix \<open>TMPDIR=\<close>. The loop has no \<open>break\<close>: every matching
  line overwrites \<open>tmpFolder\<close>. On the dump below the first matching line holds
  \<open>/first\<close> and the probe resolves \<open>/second\<close>.
\<close>

theorem first_tmpdir_line_counterexample:
  "fst (GetSystemInformation (probeAcquisition ''TMPDIR=/first\<newline>TMPDIR=/second'')) = None \<and>
   hd (tmpdirLines ''TMPDIR=/first\<newline>TMPDIR=/second'') = ''TMPDIR=/first'' \<and>
   TmpDir (snd (GetSystemInformation (probeAcquisition ''TMPDIR=/first\<newline>TMPDIR=/second''))) =
     ''/second''"
  by code_simp

text \<open>
  Claim C4, amended: for every environment dump the adapter returns, the temp directory
  is the value that follows the prefix \<open>TMPDIR=\<close> on the last line (after per-line
  white space trimming) that carries the prefix; when that value is empty the fallback
  \<open>/data/local/tmp\<close> is taken.
\<close>

theorem tmpdir_value_of_last_line:
  assumes "ADB a = Some d"
    and "Shell d ''getprop ro.product.cpu.abi'' = Inr cpu"
    and "Shell d ''env'' = Inr out"
    and "tmpdirLines out \<noteq> []"
    and "last (tmpdirLines out) = ''TMPDIR='' @ v"
  shows "TmpDir (snd (GetSystemInformation a)) = (if v = [] then ''/data/local/tmp'' else v)"
  using assms by (simp add: GetSystemInformation_ok resolveTmpFolder_last)

theorem tmpdir_value_of_last_line_witness:
  "tmpdirLines ''PATH=/sbin\<newline>TMPDIR=/first\<newline> TMPDIR=/second dir \<newline>'' \<noteq> [] \<and>
   last (tmpdirLines ''PATH=/sbin\<newline>TMPDIR=/first\<newline> TMPDIR=/second dir \<newline>'') =
     ''TMPDIR='' @ ''/second dir'' \<and>
   TmpDir (snd (GetSystemInformation
     (probeAcquisition ''PATH=/sbin\<newline>TMPDIR=/first\<newline> TMPDIR=/second dir \<newline>''))) =
     ''/second dir''"
proof -
  let ?dump = "''PATH=/sbin\<newline>TMPDIR=/first\<newline> TMPDIR=/second dir \<newline>''"
  have h1: "ADB (probeAcquisition ?dump) = Some (probeAdapter ?dump)"
    by (simp add: probeAcquisition_def)
  have h2: "Shell (probeAdapter ?dump) ''getprop ro.product.cpu.abi'' = Inr ''arm64-v8a''"
    by (simp add: probeAdapter_def)
  have h3: "Shell (probeAdapter ?dump) ''env'' = Inr ?dump"
    by (simp add: probeAdapter_def)
  have l: "tmpdirLines ?dump = [''TMPDIR=/first'', ''TMPDIR=/second dir'']"
    by code_simp
  have h4: "tmpdirLines ?dump \<noteq> []" and h5: "last (tmpdirLines ?dump) = ''TMPDIR='' @ ''/second dir''"
    by (simp_all add: l)
  from tmpdir_value_of_last_line [OF h1 h2 h3 h4 h5] h4 h5 show ?thesis
    by simp
qed

text \<open>
  Claim C5, as the specification states it: every dump that contains a line
  \<open>TMPDIR=/foo/bar\<close> resolves to \<open>/foo/bar\<close>. A later \<open>TMPDIR=\<close> line overrides it.
\<close>

theorem foo_bar_overridden_counterexample:
  "''TMPDIR=/foo/bar'' \<in> set (Split ''TMPDIR=/foo/bar\<newline>TMPDIR=/other'' (CHR 0x0A)) \<and>
   fst (GetSystemInformation (probeAcquisition ''TMPDIR=/foo/bar\<newline>TMPDIR=/other'')) = None \<and>
   TmpDir (snd (GetSystemInformation (probeAcquisition ''TMPDIR=/foo/bar\<newline>TMPDIR=/other''))) =
     ''/other''"
  by code_simp

text \<open>
  Claim C5, amended: when the last \<open>TMPDIR=\<close>-prefixed line of the dump (after trimming)
  is \<open>TMPDIR=/foo/bar\<close>, the resolved temp directory is \<open>/foo/bar\<close>; when the dump has
  no \<open>TMPDIR=\<close>-prefixed line, or only ones with an empty value, the resolved temp
  directory is the fallback \<open>/data/local/tmp\<close>.
\<close>

theorem tmpdir_foo_bar_or_fallback:
  assumes "ADB a = Some d"
    and "Shell d ''getprop ro.product.cpu.abi'' = Inr cpu"
    and "Shell d ''env'' = Inr out"
  shows "(tmpdirLines out \<noteq> [] \<and> last (tmpdirLines out) = ''TMPDIR=/foo/bar'' \<longrightarrow>
            TmpDir (snd (GetSystemInformation a)) = ''/foo/bar'') \<and>
         ((\<forall>l \<in> set (tmpdirLines out). l = ''TMPDIR='') \<longrightarrow>
            TmpDir (snd (GetSystemInformation a)) = ''/data/local/tmp'')"
proof -
  have "TmpDir (snd (GetSystemInformation a)) = ''/data/local/tmp''"
    if "\<forall>l \<in> set (tmpdirLines out). l = ''TMPDIR=''"
  proof (cases "tmpdirLines out = []")
    case True
    with assms show ?thesis
      by (simp add: GetSystemInformation_ok resolveTmpFolder_last)
  next
    case False
    with that have "last (tmpdirLines out) = ''TMPDIR=''"
      using last_in_set by blast
    with assms show ?thesis
      by (simp add: GetSystemInformation_ok resolveTmpFolder_last)
  qed
  moreover have "TmpDir (snd (GetSystemInformation a)) = ''/foo/bar''"
    if "tmpdirLines out \<noteq> []" and "last (tmpdirLines out) = ''TMPDIR=/foo/bar''"
    using assms that by (simp add: GetSystemInformation_ok resolveTmpFolder_last)
  ultimately show ?thesis by blast
qed

theorem tmpdir_foo_bar_or_fallback_witness:
  "last (tmpdirLines ''A=1\<newline>TMPDIR=/foo/bar\<newline>'') = ''TMPDIR=/foo/bar'' \<and>
   TmpDir (snd (GetSystemInformation (probeAcquisition ''A=1\<newline>TMPDIR=/foo/bar\<newline>''))) =
     ''/foo/bar'' \<and>
   tmpdirLines ''A=1\<newline>\<newline>TMPDIR=\<newline>'' = [''TMPDIR=''] \<and>
   TmpDir (snd (GetSystemInformation (probeAcquisition ''A=1\<newline>\<newline>TMPDIR=\<newline>''))) =
     ''/data/local/tmp'' \<and>
   tmpdirLines ''A=1\<newline>B=2'' = [] \<and>
   TmpDir (snd (GetSystemInformation (probeAcquisition ''A=1\<newline>B=2''))) = ''/data/local/tmp''"
proof -
  let ?d1 = "''A=1\<newline>TMPDIR=/foo/bar\<newline>''"
  let ?d2 = "''A=1\<newline>\<newline>TMPDIR=\<newline>''"
  let ?d3 = "''A=1\<newline>B=2''"
  have a: "ADB (probeAcquisition dump) = Some (probeAdapter dump)" for dump
    by (simp add: probeAcquisition_def)
  have c: "Shell (probeAdapter dump) ''getprop ro.product.cpu.abi'' = Inr ''arm64-v8a''" for dump
    by (simp add: probeAdapter_def)
  have e: "Shell (probeAdapter dump) ''env'' = Inr dump" for dump
    by (simp add: probeAdapter_def)
  have l1: "tmpdirLines ?d1 = [''TMPDIR=/foo/bar'']" by code_simp
  have l2: "tmpdirLines ?d2 = [''TMPDIR='']" by code_simp
  have l3: "tmpdirLines ?d3 = []" by code_simp
  from tmpdir_foo_bar_or_fallback [OF a c e, of ?d1] tmpdir_foo_bar_or_fallback [OF a c e, of ?d2]
    tmpdir_foo_bar_or_fallback [OF a c e, of ?d3] l1 l2 l3
  show ?thesis by simp
qed

text \<open>
  Claim C10: with several \<open>TMPDIR=\<close>-prefixed lines the last one decides. If the last
  one is exactly \<open>TMPDIR=\<close>, the probe resolves the fallback \<open>/data/local/tmp\<close>, whatever
  the earlier lines held; otherwise it resolves the value of the last one.
\<close>

theorem tmpdir_last_line_wins:
  assumes "ADB a = Some d"
    and "Shell d ''getprop ro.product.cpu.abi'' = Inr cpu"
    and "Shell d ''env'' = Inr out"
  shows "fst (GetSystemInformation a) = None \<and>
         TmpDir (snd (GetSystemInformation a)) =
           (if tmpdirLines out = [] \<or> last (tmpdirLines out) = ''TMPDIR=''
            then ''/data/local/tmp'' else drop 7 (last (tmpdirLines out)))"
proof -
  have "tmpdirLines out \<noteq> [] \<Longrightarrow>
      HasPrefix (last (tmpdirLines out)) ''TMPDIR=''"
    by (rule tmpdirLines_last_prefix)
  then have "tmpdirLines out \<noteq> [] \<Longrightarrow>
      drop 7 (last (tmpdirLines out)) = [] \<longleftrightarrow> last (tmpdirLines out) = ''TMPDIR=''"
    by (rule tmpdir_value_empty)
  then show ?thesis
    using assms by (auto simp: GetSystemInformation_ok resolveTmpFolder_last)
qed

theorem tmpdir_last_line_wins_witness:
  "ADB (probeAcquisition ''TMPDIR=/data/tmp\<newline>TMPDIR='') =
     Some (probeAdapter ''TMPDIR=/data/tmp\<newline>TMPDIR='') \<and>
   Shell (probeAdapter ''TMPDIR=/data/tmp\<newline>TMPDIR='') ''env'' =
     Inr ''TMPDIR=/data/tmp\<newline>TMPDIR='' \<and>
   tmpdirLines ''TMPDIR=/data/tmp\<newline>TMPDIR='' = [''TMPDIR=/data/tmp'', ''TMPDIR=''] \<and>
   TmpDir (snd (GetSystemInformation (probeAcquisition ''TMPDIR=/data/tmp\<newline>TMPDIR=''))) =
     ''/data/local/tmp''"
proof -
  let ?dump = "''TMPDIR=/data/tmp\<newline>TMPDIR=''"
  have h1: "ADB (probeAcquisition ?dump) = Some (probeAdapter ?dump)"
    by (simp add: probeAcquisition_def)
  have h2: "Shell (probeAdapter ?dump) ''getprop ro.product.cpu.abi'' = Inr ''arm64-v8a''"
    by (simp add: probeAdapter_def)
  have h3: "Shell (probeAdapter ?dump) ''env'' = Inr ?dump"
    by (simp add: probeAdapter_def)
  have l: "tmpdirLines ?dump = [''TMPDIR=/data/tmp'', ''TMPDIR='']"
    by code_simp
  from tmpdir_last_line_wins [OF h1 h2 h3] h1 h3 l show ?thesis
    by simp
qed

section \<open>Properties of the lifecycle controller\<close>

lemma hi_lt: "unat (drop_bit 4 (b :: byte)) < 16"
proof -
  have "unat b < 256" using unsigned_less [of b, where 'a = nat] by simp
  then show ?thesis
    unfolding unat_drop_bit_eq by (simp add: drop_bit_eq_div)
qed

lemma lo_lt: "unat ((b :: byte) AND 0x0f) < 16"
proof -
  have "b AND 0x0f \<le> 0x0f" by (rule word_and_le1)
  then show ?thesis by (simp add: word_le_nat_alt)
qed

lemma byte_le3: "(y::byte) \<le> 3 \<Longrightarrow> y = 0 \<or> y = 1 \<or> y = 2 \<or> y = 3"
proof -
  assume "y \<le> 3"
  then have "unat y \<le> 3" by (simp add: word_le_nat_alt)
  then have "unat y = 0 \<or> unat y = 1 \<or> unat y = 2 \<or> unat y = 3" by arith
  then show ?thesis
    by (auto simp: word_unat_eq_iff)
qed

lemma hexdigit: "n < 16 \<Longrightarrow> hextable ! n \<in> set hextable"
  by (rule nth_mem) (simp add: hextable_def)

lemma hexByte_version:
  "\<exists>y. hexByte (((b :: byte) AND 0x0f) OR 0x40) = [CHR ''4'', y] \<and> y \<in> set hextable"
proof -
  have "(b AND 0x0f OR 0x40) AND 0x0f = b AND 0x0f"
    by (simp add: bit.conj_disj_distrib2 and.assoc)
  then show ?thesis
    by (simp add: hexByte_def hexdigit lo_lt) (simp add: hextable_def)
qed

lemma variant_nibble: "drop_bit 4 (((b :: byte) AND 0x3f) OR 0x80) \<in> {8, 9, 10, 11}"
proof -
  have "drop_bit 4 b AND 3 \<le> 3" by (rule word_and_le1)
  then have "drop_bit 4 b AND 3 = 0 \<or> drop_bit 4 b AND 3 = 1 \<or>
      drop_bit 4 b AND 3 = 2 \<or> drop_bit 4 b AND 3 = 3"
    by (rule byte_le3)
  then show ?thesis by auto
qed

lemma hexByte_variant:
  "\<exists>x y. hexByte (((b :: byte) AND 0x3f) OR 0x80) = [x, y] \<and>
     x \<in> set ''89ab'' \<and> y \<in> set hextable"
proof -
  let ?v = "((b :: byte) AND 0x3f) OR 0x80"
  have "drop_bit 4 ?v \<in> {8, 9, 10, 11}" by (rule variant_nibble)
  then have "hextable ! unat (drop_bit 4 ?v) \<in> set ''89ab''"
    by (auto simp: hextable_def)
  then show ?thesis
    by (simp add: hexByte_def hexdigit lo_lt del: drop_bit_or drop_bit_and)
qed

lemma hexByte_shape: "\<exists>x y. hexByte b = [x, y] \<and> x \<in> set hextable \<and> y \<in> set hextable"
  by (simp add: hexByte_def hexdigit hi_lt lo_lt)

lemma NewV4_bytes:
  "NewV4 rnd =
     [rnd 0, rnd 1, rnd 2, rnd 3, rnd 4, rnd 5, (rnd 6 AND 0x0f) OR 0x40, rnd 7,
      (rnd 8 AND 0x3f) OR 0x80, rnd 9, rnd 10, rnd 11, rnd 12, rnd 13, rnd 14, rnd 15]"
proof -
  have "[0..<16] = [0, 1, 2, 3, 4, 5, 6, 7, 8, 9, 10, 11, 12, 13, 14, 15::nat]"
    by code_simp
  then show ?thesis
    by (simp add: NewV4_def SetVersion_def SetVariantRFC4122_def)
qed

lemma uuid_v4: "isUUIDv4 (uuidString (NewV4 rnd))"
proof -
  obtain y6 where v6: "hexByte ((rnd 6 AND 0x0f) OR 0x40) = [CHR ''4'', y6]" "y6 \<in> set hextable"
    using hexByte_version [of "rnd 6"] by blast
  obtain x8 y8 where v8: "hexByte ((rnd 8 AND 0x3f) OR 0x80) = [x8, y8]"
    "x8 \<in> set ''89ab''" "y8 \<in> set hextable"
    using hexByte_variant [of "rnd 8"] by blast
  have x8h: "x8 \<in> set hextable" using v8(2) by (auto simp: hextable_def)
  have four: "CHR ''4'' \<in> set hextable" by (simp add: hextable_def)
  have ex: "\<exists>x y. hexByte (rnd i) = [x, y] \<and> x \<in> set hextable \<and> y \<in> set hextable" for i
    by (rule hexByte_shape)
  from ex [of 0] ex [of 1] ex [of 2] ex [of 3] ex [of 4] ex [of 5] ex [of 7] ex [of 9]
    ex [of 10] ex [of 11] ex [of 12] ex [of 13] ex [of 14] ex [of 15]
  show ?thesis
    apply (elim exE conjE)
    apply (simp only: NewV4_bytes uuidString_def)
    apply (simp add: v6 v8 x8h four isUUIDv4_def hexEncode_def del: drop_bit_or drop_bit_and)
    using v8(2) apply simp
    done
qed

text \<open>
  Claim C7: when no device is reachable (the adapter bootstrap or the device state query
  fails) \<open>New\<close> returns an error and no Acquisition; when a device is reachable it
  returns an Acquisition whose id is a non-empty version-4 UUID string and whose
  \<open>Started\<close> is the reading of the clock at the call, in UTC, hence not after any later
  reading.
\<close>

theorem New_outcome:
  "(\<not> deviceReachable adbNew \<longrightarrow> (\<exists>err. New rnd clock adbNew = Inl err)) \<and>
   (deviceReachable adbNew \<longrightarrow>
      (\<exists>acq. New rnd clock adbNew = Inr acq \<and>
         UUID acq \<noteq> [] \<and> isUUIDv4 (UUID acq) \<and>
         Started acq = \<lparr>instant = clock, loc = UTC\<rparr> \<and>
         (\<forall>now. clock \<le> now \<longrightarrow> instant (Started acq) \<le> now)))"
proof -
  have v4: "isUUIDv4 (uuidString (NewV4 rnd))" by (rule uuid_v4)
  then have ne: "uuidString (NewV4 rnd) \<noteq> []" by (auto simp: isUUIDv4_def)
  show ?thesis
    using v4 ne
    by (auto simp: deviceReachable_def New_def initADB_def Let_def UTC_of_def Now_def
        split: sum.splits)
qed

theorem New_outcome_witness:
  "deviceReachable (Inr (probeAdapter [])) \<and>
   (\<exists>acq. New (\<lambda>i. of_nat (17 * i + 3)) 1700000000 (Inr (probeAdapter [])) = Inr acq \<and>
      isUUIDv4 (UUID acq) \<and> Started acq = \<lparr>instant = 1700000000, loc = UTC\<rparr>) \<and>
   \<not> deviceReachable (Inl (AdapterError ''no devices'') :: error + unit adb) \<and>
   (\<exists>err. New (\<lambda>i. of_nat (17 * i + 3)) 1700000000
      (Inl (AdapterError ''no devices'') :: error + unit adb) = Inl err)"
proof -
  have r: "deviceReachable (Inr (probeAdapter []))"
    by (simp add: deviceReachable_def probeAdapter_def)
  have n: "\<not> deviceReachable (Inl (AdapterError ''no devices'') :: error + unit adb)"
    by (simp add: deviceReachable_def)
  from New_outcome [of "Inr (probeAdapter [])" "\<lambda>i. of_nat (17 * i + 3)" 1700000000]
    New_outcome [of "Inl (AdapterError ''no devices'') :: error + unit adb"
      "\<lambda>i. of_nat (17 * i + 3)" 1700000000] r n
  show ?thesis by blast
qed

text \<open>
  Claim C8: \<open>Complete\<close> has no error result and every call ends. It sets \<open>Completed\<close>
  to the current time in UTC and changes no other field; a second call overwrites the
  first call's time; \<open>Collector.Clean\<close> is called exactly when the Collector handle is
  present, and \<open>assets.CleanAssets\<close> is called after it in every case.
\<close>

theorem Complete_effects:
  "fst (Complete clock a) = a\<lparr>Completed := \<lparr>instant = clock, loc = UTC\<rparr>\<rparr> \<and>
   Completed (fst (Complete clock2 (fst (Complete clock a)))) = \<lparr>instant = clock2, loc = UTC\<rparr> \<and>
   snd (Complete clock a) =
     (case Collector a of None \<Rightarrow> [CleanAssets] | Some c \<Rightarrow> [CollectorClean c, CleanAssets])"
  by (simp add: Complete_def Let_def UTC_of_def Now_def split: option.splits)

theorem Complete_effects_witness:
  "Completed (fst (Complete 1700000000 ((zeroAcquisition :: nat Acquisition)\<lparr>Collector := Some 7\<rparr>))) =
     \<lparr>instant = 1700000000, loc = UTC\<rparr> \<and>
   snd (Complete 1700000000 ((zeroAcquisition :: nat Acquisition)\<lparr>Collector := Some 7\<rparr>)) =
     [CollectorClean 7, CleanAssets] \<and>
   snd (Complete 1700000000 (zeroAcquisition :: nat Acquisition)) = [CleanAssets]"
  using Complete_effects [of 1700000000 "(zeroAcquisition :: nat Acquisition)\<lparr>Collector := Some 7\<rparr>" 0]
    Complete_effects [of 1700000000 "zeroAcquisition :: nat Acquisition" 0]
  by (simp add: zeroAcquisition_def)

section \<open>Properties of filesystem staging\<close>

text \<open>
  Claim C6: \<open>createFolders\<close> sets \<open>StoragePath\<close> to the program's directory joined with
  the session id and calls \<open>os.Mkdir\<close> for \<open>StoragePath\<close>, \<open>StoragePath/apks\<close>,
  \<open>StoragePath/logs\<close>, in this order, up to the first call that fails. When the first
  call fails nothing is created; when the second fails \<open>StoragePath\<close> has been created
  and stays; when the third fails \<open>StoragePath\<close> and \<open>StoragePath/apks\<close> have been
  created and stay; when none fails the three directories have been created in this
  order and the result is nil. The error returned is the one of the call that failed.
  In every case the directories created are a prefix of the three.
\<close>

theorem createFolders_order:
  "StoragePath (fst (snd (createFolders exeDir refused a dirs))) = Join exeDir (UUID a) \<and>
   (Mkdir refused dirs (Join exeDir (UUID a)) = Inl (PathError ''mkdir'' (Join exeDir (UUID a))) \<longrightarrow>
      fst (createFolders exeDir refused a dirs) =
        Some (PathError ''mkdir'' (Join exeDir (UUID a))) \<and>
      snd (snd (createFolders exeDir refused a dirs)) = dirs) \<and>
   (Mkdir refused dirs (Join exeDir (UUID a)) = Inr (dirs @ [Join exeDir (UUID a)]) \<and>
    Mkdir refused (dirs @ [Join exeDir (UUID a)]) (Join (Join exeDir (UUID a)) ''apks'') =
      Inl (PathError ''mkdir'' (Join (Join exeDir (UUID a)) ''apks'')) \<longrightarrow>
      fst (createFolders exeDir refused a dirs) =
        Some (PathError ''mkdir'' (Join (Join exeDir (UUID a)) ''apks'')) \<and>
      snd (snd (createFolders exeDir refused a dirs)) = dirs @ [Join exeDir (UUID a)]) \<and>
   (Mkdir refused dirs (Join exeDir (UUID a)) = Inr (dirs @ [Join exeDir (UUID a)]) \<and>
    Mkdir refused (dirs @ [Join exeDir (UUID a)]) (Join (Join exeDir (UUID a)) ''apks'') =
      Inr (dirs @ [Join exeDir (UUID a), Join (Join exeDir (UUID a)) ''apks'']) \<and>
    Mkdir refused (dirs @ [Join exeDir (UUID a), Join (Join exeDir (UUID a)) ''apks''])
      (Join (Join exeDir (UUID a)) ''logs'') =
      Inl (PathError ''mkdir'' (Join (Join exeDir (UUID a)) ''logs'')) \<longrightarrow>
      fst (createFolders exeDir refused a dirs) =
        Some (PathError ''mkdir'' (Join (Join exeDir (UUID a)) ''logs'')) \<and>
      snd (snd (createFolders exeDir refused a dirs)) =
        dirs @ [Join exeDir (UUID a), Join (Join exeDir (UUID a)) ''apks'']) \<and>
   (Mkdir refused dirs (Join exeDir (UUID a)) = Inr (dirs @ [Join exeDir (UUID a)]) \<and>
    Mkdir refused (dirs @ [Join exeDir (UUID a)]) (Join (Join exeDir (UUID a)) ''apks'') =
      Inr (dirs @ [Join exeDir (UUID a), Join (Join exeDir (UUID a)) ''apks'']) \<and>
    Mkdir refused (dirs @ [Join exeDir (UUID a), Join (Join exeDir (UUID a)) ''apks''])
      (Join (Join exeDir (UUID a)) ''logs'') =
      Inr (dirs @ [Join exeDir (UUID a), Join (Join exeDir (UUID a)) ''apks'',
                   Join (Join exeDir (UUID a)) ''logs'']) \<longrightarrow>
      fst (createFolders exeDir refused a dirs) = None \<and>
      snd (snd (createFolders exeDir refused a dirs)) =
        dirs @ [Join exeDir (UUID a), Join (Join exeDir (UUID a)) ''apks'',
                Join (Join exeDir (UUID a)) ''logs''] \<and>
      APKSPath (fst (snd (createFolders exeDir refused a dirs))) =
        Join (Join exeDir (UUID a)) ''apks'' \<and>
      LogsPath (fst (snd (createFolders exeDir refused a dirs))) =
        Join (Join exeDir (UUID a)) ''logs'') \<and>
   (\<exists>k. k \<le> 3 \<and>
      snd (snd (createFolders exeDir refused a dirs)) =
        dirs @ take k [Join exeDir (UUID a), Join (Join exeDir (UUID a)) ''apks'',
                       Join (Join exeDir (UUID a)) ''logs''] \<and>
      fst (createFolders exeDir refused a dirs) =
        (if k = 3 then None
         else Some (PathError ''mkdir''
           ([Join exeDir (UUID a), Join (Join exeDir (UUID a)) ''apks'',
             Join (Join exeDir (UUID a)) ''logs''] ! k))))"
proof -
  let ?sp = "Join exeDir (UUID a)"
  let ?ap = "Join ?sp ''apks''"
  let ?lp = "Join ?sp ''logs''"
  let ?r = "createFolders exeDir refused a dirs"
  let ?P = "\<lambda>k. k \<le> 3 \<and> snd (snd ?r) = dirs @ take k [?sp, ?ap, ?lp] \<and>
      fst ?r = (if k = 3 then None else Some (PathError ''mkdir'' ([?sp, ?ap, ?lp] ! k)))"
  have sp: "StoragePath (fst (snd ?r)) = ?sp"
    by (simp add: createFolders_def Let_def split: sum.splits)
  have f0: "fst ?r = Some (PathError ''mkdir'' ?sp) \<and> snd (snd ?r) = dirs"
    if "Mkdir refused dirs ?sp = Inl (PathError ''mkdir'' ?sp)"
    using that by (simp add: createFolders_def Let_def)
  have f1: "fst ?r = Some (PathError ''mkdir'' ?ap) \<and> snd (snd ?r) = dirs @ [?sp]"
    if "Mkdir refused dirs ?sp = Inr (dirs @ [?sp])"
      and "Mkdir refused (dirs @ [?sp]) ?ap = Inl (PathError ''mkdir'' ?ap)"
    using that by (simp add: createFolders_def Let_def)
  have f2: "fst ?r = Some (PathError ''mkdir'' ?lp) \<and> snd (snd ?r) = dirs @ [?sp, ?ap]"
    if "Mkdir refused dirs ?sp = Inr (dirs @ [?sp])"
      and "Mkdir refused (dirs @ [?sp]) ?ap = Inr (dirs @ [?sp, ?ap])"
      and "Mkdir refused (dirs @ [?sp, ?ap]) ?lp = Inl (PathError ''mkdir'' ?lp)"
    using that by (simp add: createFolders_def Let_def)
  have f3: "fst ?r = None \<and> snd (snd ?r) = dirs @ [?sp, ?ap, ?lp] \<and>
      APKSPath (fst (snd ?r)) = ?ap \<and> LogsPath (fst (snd ?r)) = ?lp"
    if "Mkdir refused dirs ?sp = Inr (dirs @ [?sp])"
      and "Mkdir refused (dirs @ [?sp]) ?ap = Inr (dirs @ [?sp, ?ap])"
      and "Mkdir refused (dirs @ [?sp, ?ap]) ?lp = Inr (dirs @ [?sp, ?ap, ?lp])"
    using that by (simp add: createFolders_def Let_def)
  have "\<exists>k. ?P k"
  proof (cases "?sp \<in> set dirs \<or> refused ?sp")
    case True
    then have "?P 0" by (simp add: createFolders_def Mkdir_def Let_def)
    then show ?thesis ..
  next
    case c0: False
    show ?thesis
    proof (cases "?ap \<in> set (dirs @ [?sp]) \<or> refused ?ap")
      case True
      with c0 have "?P 1" by (simp add: createFolders_def Mkdir_def Let_def)
      then show ?thesis ..
    next
      case c1: False
      show ?thesis
      proof (cases "?lp \<in> set (dirs @ [?sp, ?ap]) \<or> refused ?lp")
        case True
        with c0 c1 have "?P 2" by (simp add: createFolders_def Mkdir_def Let_def)
        then show ?thesis ..
      next
        case False
        with c0 c1 have "?P 3" by (simp add: createFolders_def Mkdir_def Let_def)
        then show ?thesis ..
      qed
    qed
  qed
  with sp f0 f1 f2 f3 show ?thesis by blast
qed

theorem createFolders_order_witness:
  "fst (createFolders ''/opt/q'' (\<lambda>p. False)
     ((zeroAcquisition :: unit Acquisition)\<lparr>UUID := ''id''\<rparr>) [''/opt/q'']) = None \<and>
   snd (snd (createFolders ''/opt/q'' (\<lambda>p. False)
     ((zeroAcquisition :: unit Acquisition)\<lparr>UUID := ''id''\<rparr>) [''/opt/q''])) =
     [''/opt/q'', ''/opt/q/id'', ''/opt/q/id/apks'', ''/opt/q/id/logs''] \<and>
   StoragePath (fst (snd (createFolders ''/opt/q'' (\<lambda>p. False)
     ((zeroAcquisition :: unit Acquisition)\<lparr>UUID := ''id''\<rparr>) [''/opt/q'']))) = ''/opt/q/id'' \<and>
   APKSPath (fst (snd (createFolders ''/opt/q'' (\<lambda>p. False)
     ((zeroAcquisition :: unit Acquisition)\<lparr>UUID := ''id''\<rparr>) [''/opt/q'']))) =
     ''/opt/q/id/apks'' \<and>
   LogsPath (fst (snd (createFolders ''/opt/q'' (\<lambda>p. False)
     ((zeroAcquisition :: unit Acquisition)\<lparr>UUID := ''id''\<rparr>) [''/opt/q'']))) =
     ''/opt/q/id/logs'' \<and>
   StoragePath (fst (snd (createFolders ''/opt/q'' (\<lambda>p. p = ''/opt/q/id/logs'')
     ((zeroAcquisition :: unit Acquisition)\<lparr>UUID := ''id''\<rparr>) [''/opt/q'']))) = ''/opt/q/id'' \<and>
   snd (snd (createFolders ''/opt/q'' (\<lambda>p. p = ''/opt/q/id/logs'')
     ((zeroAcquisition :: unit Acquisition)\<lparr>UUID := ''id''\<rparr>) [''/opt/q''])) =
     [''/opt/q'', ''/opt/q/id'', ''/opt/q/id/apks''] \<and>
   fst (createFolders ''/opt/q'' (\<lambda>p. p = ''/opt/q/id/logs'')
     ((zeroAcquisition :: unit Acquisition)\<lparr>UUID := ''id''\<rparr>) [''/opt/q'']) =
     Some (PathError ''mkdir'' ''/opt/q/id/logs'')"
proof -
  let ?a = "(zeroAcquisition :: unit Acquisition)\<lparr>UUID := ''id''\<rparr>"
  let ?ok = "createFolders ''/opt/q'' (\<lambda>p. False) ?a [''/opt/q'']"
  let ?r = "createFolders ''/opt/q'' (\<lambda>p. p = ''/opt/q/id/logs'') ?a [''/opt/q'']"
  have j: "Join ''/opt/q'' (UUID ?a) = ''/opt/q/id''"
    "Join ''/opt/q/id'' ''apks'' = ''/opt/q/id/apks''"
    "Join ''/opt/q/id'' ''logs'' = ''/opt/q/id/logs''"
    by code_simp+
  have m: "Mkdir (\<lambda>p. False) [''/opt/q''] ''/opt/q/id'' = Inr ([''/opt/q''] @ [''/opt/q/id''])"
    "Mkdir (\<lambda>p. False) ([''/opt/q''] @ [''/opt/q/id'']) ''/opt/q/id/apks'' =
       Inr ([''/opt/q''] @ [''/opt/q/id'', ''/opt/q/id/apks''])"
    "Mkdir (\<lambda>p. False) ([''/opt/q''] @ [''/opt/q/id'', ''/opt/q/id/apks'']) ''/opt/q/id/logs'' =
       Inr ([''/opt/q''] @ [''/opt/q/id'', ''/opt/q/id/apks'', ''/opt/q/id/logs''])"
    by (simp_all add: Mkdir_def)
  have n: "Mkdir (\<lambda>p. p = ''/opt/q/id/logs'') [''/opt/q''] ''/opt/q/id'' =
       Inr ([''/opt/q''] @ [''/opt/q/id''])"
    "Mkdir (\<lambda>p. p = ''/opt/q/id/logs'') ([''/opt/q''] @ [''/opt/q/id'']) ''/opt/q/id/apks'' =
       Inr ([''/opt/q''] @ [''/opt/q/id'', ''/opt/q/id/apks''])"
    "Mkdir (\<lambda>p. p = ''/opt/q/id/logs'') ([''/opt/q''] @ [''/opt/q/id'', ''/opt/q/id/apks''])
       ''/opt/q/id/logs'' = Inl (PathError ''mkdir'' ''/opt/q/id/logs'')"
    by (simp_all add: Mkdir_def)
  note ok = createFolders_order [of "''/opt/q''" "\<lambda>p. False" ?a "[''/opt/q'']", unfolded j]
  note bad = createFolders_order [of "''/opt/q''" "\<lambda>p. p = ''/opt/q/id/logs''" ?a "[''/opt/q'']",
      unfolded j]
  from ok m have s: "fst ?ok = None \<and>
      snd (snd ?ok) = [''/opt/q''] @ [''/opt/q/id'', ''/opt/q/id/apks'', ''/opt/q/id/logs''] \<and>
      StoragePath (fst (snd ?ok)) = ''/opt/q/id'' \<and>
      APKSPath (fst (snd ?ok)) = ''/opt/q/id/apks'' \<and>
      LogsPath (fst (snd ?ok)) = ''/opt/q/id/logs''"
    by blast
  from bad n have f: "StoragePath (fst (snd ?r)) = ''/opt/q/id'' \<and>
      fst ?r = Some (PathError ''mkdir'' ''/opt/q/id/logs'') \<and>
      snd (snd ?r) = [''/opt/q''] @ [''/opt/q/id'', ''/opt/q/id/apks'']"
    by blast
  from s f show ?thesis by simp
qed

section \<open>Properties of the artifact integrity recorder\<close>

lemma visit_not_SkipDir: "visit env e w = (Some err, w1) \<Longrightarrow> err \<noteq> SkipDir \<and> w1 = w"
  by (auto simp: visit_def hashWalkFn_def FileSHA256_def csvWrite_def
      split: prod.splits node.splits option.splits sum.splits if_splits kind.splits)

lemma visitAll_append:
  "visitAll env (xs @ ys) w =
     (case visitAll env xs w of (Some err, w1) \<Rightarrow> (Some err, w1) | (None, w1) \<Rightarrow> visitAll env ys w1)"
  by (induction xs arbitrary: w) (auto split: prod.splits option.splits)

lemma visitAll_not_SkipDir: "visitAll env xs w = (Some err, w1) \<Longrightarrow> err \<noteq> SkipDir"
proof (induction xs arbitrary: w)
  case Nil
  then show ?case by simp
next
  case (Cons x xs)
  then show ?case
    by (auto split: prod.splits option.splits dest: visit_not_SkipDir)
qed

lemma hashWalkFn_dir: "IsDir n \<Longrightarrow> hashWalkFn env path (Some n) None w = (None, w)"
  by (simp add: hashWalkFn_def)

lemma hashWalkFn_err: "hashWalkFn env path info (Some e) w = (Some e, w)"
  by (simp add: hashWalkFn_def)

lemma visitAll_single: "visitAll env [e] w = visit env e w"
  by (auto split: prod.splits option.splits)

lemma walk_visitAll:
  "n \<noteq> Vanished \<Longrightarrow> walk (hashWalkFn env) path n w = visitAll env (entries path n) w"
  and walkNames_visitAll:
  "walkNames (hashWalkFn env) path es w = visitAll env (entriesIn path es) w"
proof (induction path n and path es arbitrary: w and w rule: entries_entriesIn.induct)
  case (1 path es)
  then show ?case
    by (simp add: hashWalkFn_dir visit_def)
next
  case (2 path)
  then show ?case
    by (simp add: hashWalkFn_err visit_def)
next
  case (3 path k c)
  then show ?case
    by (simp add: visitAll_single visit_def del: visitAll.simps)
next
  case (4 path)
  then show ?case
    by (simp add: visitAll_single visit_def del: visitAll.simps)
next
  case (5 path)
  then show ?case by simp
next
  case (6 path)
  then show ?case by simp
next
  case (7 path name n rest)
  let ?f = "Join path name"
  show ?case
  proof (cases "n = Vanished")
    case True
    then show ?thesis
      by (simp add: hashWalkFn_err visit_def Let_def)
  next
    case False
    then have w: "walk (hashWalkFn env) ?f n w = visitAll env (entries ?f n) w"
      by (rule "7.IH"(1))
    show ?thesis
    proof (cases "visitAll env (entries ?f n) w")
      case (Pair r w1)
      show ?thesis
      proof (cases r)
        case None
        with Pair w False show ?thesis
          by (simp add: Let_def visitAll_append "7.IH"(2))
      next
        case (Some err)
        with Pair have "err \<noteq> SkipDir"
          using visitAll_not_SkipDir by blast
        with Some Pair w False show ?thesis
          by (simp add: Let_def visitAll_append)
      qed
    qed
  qed
qed

lemma Walk_visitAll: "Walk (hashWalkFn env) root n w = visitAll env (entries root n) w"
proof (cases "n = Vanished")
  case True
  then show ?thesis
    by (simp add: Walk_def hashWalkFn_err visit_def)
next
  case False
  show ?thesis
  proof (cases "visitAll env (entries root n) w")
    case (Pair r w1)
    then have "r \<noteq> Some SkipDir"
      using visitAll_not_SkipDir by (cases r) auto
    with Pair False show ?thesis
      by (simp add: Walk_def walk_visitAll)
  qed
qed

lemma visit_file_ok:
  "\<not> IsDir n \<Longrightarrow> readable n \<Longrightarrow> \<not> writeFails env w \<Longrightarrow>
   visit env (path, n) w = (None, w @ [[path, hexEncode (SHA256 (content env w n))]])"
  by (cases n)
    (auto simp: visit_def hashWalkFn_def FileSHA256_def csvWrite_def readable_def content_def
      split: option.splits)

lemma visit_dir_ok: "IsDir n \<Longrightarrow> readable n \<Longrightarrow> visit env (path, n) w = (None, w)"
  by (cases n) (auto simp: visit_def hashWalkFn_def readable_def)

lemma visitAll_ok:
  "list_all (\<lambda>e. readable (snd e)) xs \<Longrightarrow> \<forall>w. \<not> writeFails env w \<Longrightarrow>
   visitAll env xs w = (None, manifestOf env w (filter (\<lambda>e. \<not> IsDir (snd e)) xs))"
proof (induction xs arbitrary: w)
  case Nil
  then show ?case by simp
next
  case (Cons x xs)
  obtain path n where x: "x = (path, n)" by (cases x)
  show ?case
  proof (cases "IsDir n")
    case True
    with Cons x show ?thesis by (simp add: visit_dir_ok)
  next
    case False
    with Cons x show ?thesis by (simp add: visit_file_ok)
  qed
qed

lemma manifestOf_length: "length (manifestOf env w fs) = length w + length fs"
  by (induction fs arbitrary: w) auto

lemma manifestOf_paths: "map hd (manifestOf env w fs) = map hd w @ map fst fs"
  by (induction fs arbitrary: w) auto

lemma manifestOf_prefix: "prefix w (manifestOf env w fs)"
proof (induction fs arbitrary: w)
  case Nil
  then show ?case by simp
next
  case (Cons f fs)
  obtain path n where f: "f = (path, n)" by (cases f)
  have "prefix w (w @ [[path, hexEncode (SHA256 (content env w n))]])" by simp
  also have "prefix \<dots> (manifestOf env (w @ [[path, hexEncode (SHA256 (content env w n))]]) fs)"
    by (rule Cons.IH)
  finally show ?case by (simp add: f)
qed

lemma manifestOf_nth:
  "i < length fs \<Longrightarrow> snd (fs ! i) = File k (Some bytes) \<Longrightarrow>
   manifestOf env w fs ! (length w + i) = [fst (fs ! i), hexEncode (SHA256 bytes)]"
proof (induction fs arbitrary: w i)
  case Nil
  then show ?case by simp
next
  case (Cons f fs)
  obtain path n where f: "f = (path, n)" by (cases f)
  let ?w1 = "w @ [[path, hexEncode (SHA256 (content env w n))]]"
  show ?case
  proof (cases i)
    case 0
    with Cons.prems f have n: "n = File k (Some bytes)" by simp
    have "prefix ?w1 (manifestOf env ?w1 fs)" by (rule manifestOf_prefix)
    then obtain zs where "manifestOf env ?w1 fs = ?w1 @ zs" by (auto simp: prefix_def)
    then have "manifestOf env ?w1 fs ! length w = [path, hexEncode (SHA256 (content env w n))]"
      by (simp add: nth_append)
    with 0 f n show ?thesis by (simp add: content_def)
  next
    case (Suc j)
    with Cons.prems have "j < length fs" and "snd (fs ! j) = File k (Some bytes)" by auto
    then have "manifestOf env ?w1 fs ! (length ?w1 + j) = [fst (fs ! j), hexEncode (SHA256 bytes)]"
      by (rule Cons.IH)
    with Suc f show ?thesis by simp
  qed
qed

lemma visitAll_paths:
  "visitAll env xs w0 = (None, w) \<Longrightarrow>
   map hd w = map hd w0 @ map fst (filter (\<lambda>e. \<not> IsDir (snd e)) xs)"
proof (induction xs arbitrary: w0)
  case Nil
  then show ?case by simp
next
  case (Cons x xs)
  obtain path n where x: "x = (path, n)" by (cases x)
  from Cons.prems obtain w1 where v: "visit env x w0 = (None, w1)"
    and r: "visitAll env xs w1 = (None, w)"
    by (auto split: prod.splits option.splits)
  have "map hd w1 = map hd w0 @ (if IsDir n then [] else [path])"
    using v unfolding x
    by (cases n)
      (auto simp: visit_def hashWalkFn_def FileSHA256_def csvWrite_def
        split: option.splits if_splits)
  with Cons.IH [OF r] x show ?case by simp
qed

lemma visitAll_fails:
  "visitAll env before w0 = (None, w) \<Longrightarrow> visit env e w = (Some err, w') \<Longrightarrow>
   visitAll env (before @ e # rest) w0 = (Some err, w)"
  using visit_not_SkipDir [of env e w err w'] by (simp add: visitAll_append)

lemma visitAll_grows: "visitAll env xs w = (r, w') \<Longrightarrow> prefix w w'"
proof (induction xs arbitrary: w)
  case Nil
  then show ?case by simp
next
  case (Cons x xs)
  obtain path n where x: "x = (path, n)" by (cases x)
  show ?case
  proof (cases "visit env x w")
    case (Pair r1 w1)
    show ?thesis
    proof (cases r1)
      case None
      with Pair have "prefix w w1"
        unfolding x
        by (cases n)
          (auto simp: visit_def hashWalkFn_def FileSHA256_def csvWrite_def
            split: option.splits if_splits)
      moreover from None Pair Cons.prems have "visitAll env xs w1 = (r, w')" by simp
      then have "prefix w1 w'" by (rule Cons.IH)
      ultimately show ?thesis by (rule prefix_order.trans)
    next
      case (Some err)
      with Pair have "w1 = w" using visit_not_SkipDir by blast
      with Some Pair Cons.prems show ?thesis by simp
    qed
  qed
qed

lemma HashFiles_created:
  "Create env (Join (StoragePath a) ''hashes.csv'') = None \<Longrightarrow>
   HashFiles env a tree = (None, Some (snd (visitAll env (entries (StoragePath a) tree) [])))"
  by (simp add: HashFiles_def Walk_visitAll split: prod.splits)

lemma visit_fails:
  "fst (visit env (path, n) w) \<noteq> None \<longleftrightarrow> \<not> readable n \<or> (\<not> IsDir n \<and> writeFails env w)"
  by (cases n)
    (auto simp: visit_def hashWalkFn_def FileSHA256_def csvWrite_def readable_def
      split: option.splits)

lemma entriesIn_member:
  "(name, n) \<in> set es \<Longrightarrow> set (entries (Join path name) n) \<subseteq> set (entriesIn path es)"
  by (induction es) auto

lemma entries_self: "(path, n) \<in> set (entries path n)"
  by (cases n) auto

lemma entriesIn_insort:
  "set (entriesIn p (insort_key fst x es)) =
     set (entries (Join p (fst x)) (snd x)) \<union> set (entriesIn p es)"
proof (induction es)
  case Nil
  then show ?case by (cases x) simp
next
  case (Cons y ys)
  then show ?case by (cases x; cases y) auto
qed

lemma files_withManifest:
  "set (files path (withManifest es)) =
     insert (Join path ''hashes.csv'', Manifest) (set (files path (Dir es)))"
  by (auto simp: files_def withManifest_def entriesIn_insort)

lemma entries_withManifest:
  "(Join path ''hashes.csv'', Manifest) \<in> set (entries path (withManifest es))"
  by (simp add: withManifest_def entriesIn_insort)

lemma hex_SHA256_empty:
  "hexEncode (SHA256 []) = ''e3b0c44298fc1c149afbf4c8996fb92427ae41e4649b934ca495991b7852b855''"
  by code_simp

lemma hex_SHA256_abc:
  "hexEncode (SHA256 [0x61, 0x62, 0x63]) =
     ''ba7816bf8f01cfea414140de5dae2223b00361a396177a9cb410ff61f20015ad''"
  by code_simp

lemma Join_examples:
  "Join ''/opt/q/id'' ''hashes.csv'' = ''/opt/q/id/hashes.csv''"
  "Join ''/opt/q/id'' ''a.bin'' = ''/opt/q/id/a.bin''"
  "Join ''/opt/q/id'' ''b.bin'' = ''/opt/q/id/b.bin''"
  "Join ''/opt/q/id'' ''link'' = ''/opt/q/id/link''"
  by code_simp+

text \<open>
  Claim C1, as the specification states it: every traversal or digest error makes
  \<open>HashFiles\<close> return an error. In the first tree below the file \<open>a.bin\<close> cannot be
  read: the walk returns the error, and \<open>HashFiles\<close> returns nil, no row accepted. In
  the second one the storage directory itself cannot be listed, with the same outcome.
\<close>

theorem walk_error_swallowed_counterexample:
  "Walk (hashWalkFn exampleSink) ''/opt/q/id''
     (Dir [(''a.bin'', File Regular None), (''hashes.csv'', Manifest)]) [] =
     (Some (PathError ''open'' ''/opt/q/id/a.bin''), []) \<and>
   HashFiles exampleSink stagedAcquisition
     (Dir [(''a.bin'', File Regular None), (''hashes.csv'', Manifest)]) = (None, Some []) \<and>
   Walk (hashWalkFn exampleSink) ''/opt/q/id'' Unlisted [] =
     (Some (PathError ''open'' ''/opt/q/id''), []) \<and>
   HashFiles exampleSink stagedAcquisition Unlisted = (None, Some [])"
  by (simp add: HashFiles_def Walk_def stagedAcquisition_def Join_examples
      hashWalkFn_def FileSHA256_def exampleSink_def Let_def)

text \<open>
  Claim C1, amended: \<open>HashFiles\<close> returns the error of \<open>os.Create\<close> and no other. The
  function literal of the walk returns an error exactly at an entry that cannot be
  reached, listed or read, and at an entry that is not a directory when the write of its
  row fails. Such an error ends the walk there: the walk returns that error, no row is
  accepted for the entry or for any entry after it, and \<open>HashFiles\<close> discards the error
  and returns nil, the csv writer holding the rows of the files visited before.
\<close>

theorem HashFiles_discards_walk_error:
  "fst (HashFiles env a tree) = Create env (Join (StoragePath a) ''hashes.csv'') \<and>
   (\<forall>path n w. fst (visit env (path, n) w) \<noteq> None \<longleftrightarrow>
      \<not> readable n \<or> (\<not> IsDir n \<and> writeFails env w)) \<and>
   (\<forall>before e rest w err w'.
      Create env (Join (StoragePath a) ''hashes.csv'') = None \<and>
      entries (StoragePath a) tree = before @ e # rest \<and>
      visitAll env before [] = (None, w) \<and>
      visit env e w = (Some err, w') \<longrightarrow>
        Walk (hashWalkFn env) (StoragePath a) tree [] = (Some err, w) \<and>
        HashFiles env a tree = (None, Some w) \<and>
        map hd w = map fst (filter (\<lambda>e. \<not> IsDir (snd e)) before))"
proof -
  have "fst (HashFiles env a tree) = Create env (Join (StoragePath a) ''hashes.csv'')"
    by (cases "Create env (Join (StoragePath a) ''hashes.csv'')")
      (simp_all add: HashFiles_def split: prod.splits)
  moreover have "Walk (hashWalkFn env) (StoragePath a) tree [] = (Some err, w) \<and>
        HashFiles env a tree = (None, Some w) \<and>
        map hd w = map fst (filter (\<lambda>e. \<not> IsDir (snd e)) before)"
    if c: "Create env (Join (StoragePath a) ''hashes.csv'') = None"
      and e: "entries (StoragePath a) tree = before @ e # rest"
      and b: "visitAll env before [] = (None, w)"
      and v: "visit env e w = (Some err, w')"
    for before e rest w err w'
  proof -
    from b v have "visitAll env (before @ e # rest) [] = (Some err, w)"
      by (rule visitAll_fails)
    with e have all: "visitAll env (entries (StoragePath a) tree) [] = (Some err, w)"
      by simp
    from b have "map hd w = map hd [] @ map fst (filter (\<lambda>e. \<not> IsDir (snd e)) before)"
      by (rule visitAll_paths)
    with all c show ?thesis
      by (simp add: Walk_visitAll HashFiles_created)
  qed
  ultimately show ?thesis using visit_fails by blast
qed

theorem HashFiles_discards_walk_error_witness:
  "fst (HashFiles exampleSink stagedAcquisition
     (Dir [(''a.bin'', File Regular (Some [])), (''b.bin'', File Regular None),
           (''hashes.csv'', Manifest)])) = None \<and>
   visit exampleSink (''/opt/q/id/b.bin'', File Regular None)
     [[''/opt/q/id/a.bin'', hexEncode (SHA256 [])]] =
     (Some (PathError ''open'' ''/opt/q/id/b.bin''), [[''/opt/q/id/a.bin'', hexEncode (SHA256 [])]]) \<and>
   Walk (hashWalkFn exampleSink) ''/opt/q/id''
     (Dir [(''a.bin'', File Regular (Some [])), (''b.bin'', File Regular None),
           (''hashes.csv'', Manifest)]) [] =
     (Some (PathError ''open'' ''/opt/q/id/b.bin''), [[''/opt/q/id/a.bin'', hexEncode (SHA256 [])]]) \<and>
   HashFiles exampleSink stagedAcquisition
     (Dir [(''a.bin'', File Regular (Some [])), (''b.bin'', File Regular None),
           (''hashes.csv'', Manifest)]) =
     (None, Some [[''/opt/q/id/a.bin'', hexEncode (SHA256 [])]])"
proof -
  let ?tree = "Dir [(''a.bin'', File Regular (Some [])), (''b.bin'', File Regular None),
    (''hashes.csv'', Manifest)]"
  let ?w = "[[''/opt/q/id/a.bin'', hexEncode (SHA256 [])]]"
  have sp: "StoragePath stagedAcquisition = ''/opt/q/id''"
    by (simp add: stagedAcquisition_def)
  have c: "Create exampleSink (Join (StoragePath stagedAcquisition) ''hashes.csv'') = None"
    by (simp add: exampleSink_def)
  have e: "entries (StoragePath stagedAcquisition) ?tree =
      [(''/opt/q/id'', ?tree), (''/opt/q/id/a.bin'', File Regular (Some []))] @
      (''/opt/q/id/b.bin'', File Regular None) # [(''/opt/q/id/hashes.csv'', Manifest)]"
    by (simp add: sp Join_examples)
  have b: "visitAll exampleSink
      [(''/opt/q/id'', ?tree), (''/opt/q/id/a.bin'', File Regular (Some []))] [] = (None, ?w)"
    by (simp add: visit_def hashWalkFn_def FileSHA256_def csvWrite_def exampleSink_def)
  have v: "visit exampleSink (''/opt/q/id/b.bin'', File Regular None) ?w =
      (Some (PathError ''open'' ''/opt/q/id/b.bin''), ?w)"
    by (simp add: visit_def hashWalkFn_def FileSHA256_def)
  from HashFiles_discards_walk_error [of exampleSink stagedAcquisition ?tree, THEN conjunct1] c
  have f: "fst (HashFiles exampleSink stagedAcquisition ?tree) = None"
    by simp
  have "Walk (hashWalkFn exampleSink) (StoragePath stagedAcquisition) ?tree [] =
        (Some (PathError ''open'' ''/opt/q/id/b.bin''), ?w) \<and>
      HashFiles exampleSink stagedAcquisition ?tree = (None, Some ?w) \<and>
      map hd ?w = map fst (filter (\<lambda>e. \<not> IsDir (snd e))
        [(''/opt/q/id'', ?tree), (''/opt/q/id/a.bin'', File Regular (Some []))])"
    by (rule HashFiles_discards_walk_error [of exampleSink stagedAcquisition ?tree,
          THEN conjunct2, THEN conjunct2, rule_format, OF conjI [OF c conjI [OF e conjI [OF b v]]]])
  with f have "fst (HashFiles exampleSink stagedAcquisition ?tree) = None \<and>
      Walk (hashWalkFn exampleSink) (StoragePath stagedAcquisition) ?tree [] =
        (Some (PathError ''open'' ''/opt/q/id/b.bin''), ?w) \<and>
      HashFiles exampleSink stagedAcquisition ?tree = (None, Some ?w)"
    by blast
  with v show ?thesis unfolding sp by blast
qed

text \<open>
  Claim C2, as the specification states it: a run of \<open>HashFiles\<close> that returns nil has
  written one row for every regular file, and entries that are not regular files are
  skipped. In the first tree \<open>a.bin\<close> cannot be read and \<open>HashFiles\<close> returns nil without
  a row for the regular file \<open>b.bin\<close>. In the second tree \<open>link\<close> is not a regular file,
  and it gets a row (as does \<open>hashes.csv\<close> itself).
\<close>

theorem one_row_per_regular_file_counterexample:
  "HashFiles exampleSink stagedAcquisition
     (Dir [(''a.bin'', File Regular None), (''b.bin'', File Regular (Some [])),
           (''hashes.csv'', Manifest)]) =
     (None, Some []) \<and>
   HashFiles exampleSink stagedAcquisition
     (Dir [(''hashes.csv'', Manifest), (''link'', File Irregular (Some []))]) =
     (None, Some
       [[''/opt/q/id/hashes.csv'',
         ''e3b0c44298fc1c149afbf4c8996fb92427ae41e4649b934ca495991b7852b855''],
        [''/opt/q/id/link'',
         ''e3b0c44298fc1c149afbf4c8996fb92427ae41e4649b934ca495991b7852b855'']])"
  by (simp add: HashFiles_def Walk_def stagedAcquisition_def Join_examples
      hashWalkFn_def FileSHA256_def csvWrite_def exampleSink_def Let_def hex_SHA256_empty)

text \<open>
  Claim C2, amended: when the manifest file is created, every entry the walk finds can
  be reached and read, and no write fails, \<open>HashFiles\<close> returns nil and has written to
  the csv writer exactly one row for every entry that is not a directory, in the order
  of the walk: for regular files, for entries of any other kind, and for \<open>hashes.csv\<close>
  itself. The row of an entry holds its path and the SHA-256, in lower-case hexadecimal,
  of the bytes it holds when it is read. Directories are traversed and get no row. When
  \<open>hashes.csv\<close> is a new entry of the storage directory, these entries are the ones
  the directory held at the start and \<open>hashes.csv\<close>.
\<close>

theorem HashFiles_manifest:
  assumes "Create env (Join (StoragePath a) ''hashes.csv'') = None"
    and "list_all (\<lambda>e. readable (snd e)) (entries (StoragePath a) tree)"
    and "\<forall>w. \<not> writeFails env w"
  shows "\<exists>rows. HashFiles env a tree = (None, Some rows) \<and>
           rows = manifestOf env [] (files (StoragePath a) tree) \<and>
           length rows = length (files (StoragePath a) tree) \<and>
           map hd rows = map fst (files (StoragePath a) tree) \<and>
           (\<forall>i k bytes. i < length rows \<and> snd (files (StoragePath a) tree ! i) = File k (Some bytes)
              \<longrightarrow> rows ! i = [fst (files (StoragePath a) tree ! i), hexEncode (SHA256 bytes)]) \<and>
           (\<forall>es. tree = withManifest es \<longrightarrow>
              set (files (StoragePath a) tree) =
                insert (Join (StoragePath a) ''hashes.csv'', Manifest)
                  (set (files (StoragePath a) (Dir es))))"
proof -
  let ?fs = "files (StoragePath a) tree"
  let ?rows = "manifestOf env [] ?fs"
  from assms(2,3) have "visitAll env (entries (StoragePath a) tree) [] = (None, ?rows)"
    unfolding files_def by (rule visitAll_ok)
  with assms(1) have h: "HashFiles env a tree = (None, Some ?rows)"
    by (simp add: HashFiles_created)
  have l: "length ?rows = length ?fs"
    by (simp add: manifestOf_length)
  have p: "map hd ?rows = map fst ?fs"
    by (simp add: manifestOf_paths)
  have n: "?rows ! i = [fst (?fs ! i), hexEncode (SHA256 bytes)]"
    if "i < length ?rows" and "snd (?fs ! i) = File k (Some bytes)" for i k bytes
    using manifestOf_nth [of i ?fs k bytes env "[]"] that l by simp
  have c: "set ?fs =
      insert (Join (StoragePath a) ''hashes.csv'', Manifest) (set (files (StoragePath a) (Dir es)))"
    if "tree = withManifest es" for es
    using that by (simp add: files_withManifest)
  from h l p n c show ?thesis by blast
qed

theorem HashFiles_manifest_witness:
  "withManifest [(''a.bin'', File Regular (Some [0x61, 0x62, 0x63])),
                 (''logs'', Dir [(''link'', File Irregular (Some []))])] =
     Dir [(''a.bin'', File Regular (Some [0x61, 0x62, 0x63])), (''hashes.csv'', Manifest),
          (''logs'', Dir [(''link'', File Irregular (Some []))])] \<and>
   files (StoragePath stagedAcquisition)
     (Dir [(''a.bin'', File Regular (Some [0x61, 0x62, 0x63])), (''hashes.csv'', Manifest),
           (''logs'', Dir [(''link'', File Irregular (Some []))])]) =
     [(''/opt/q/id/a.bin'', File Regular (Some [0x61, 0x62, 0x63])),
      (''/opt/q/id/hashes.csv'', Manifest),
      (''/opt/q/id/logs/link'', File Irregular (Some []))] \<and>
   HashFiles exampleSink stagedAcquisition
     (Dir [(''a.bin'', File Regular (Some [0x61, 0x62, 0x63])), (''hashes.csv'', Manifest),
           (''logs'', Dir [(''link'', File Irregular (Some []))])]) =
     (None, Some
       [[''/opt/q/id/a.bin'',
         ''ba7816bf8f01cfea414140de5dae2223b00361a396177a9cb410ff61f20015ad''],
        [''/opt/q/id/hashes.csv'',
         ''e3b0c44298fc1c149afbf4c8996fb92427ae41e4649b934ca495991b7852b855''],
        [''/opt/q/id/logs/link'',
         ''e3b0c44298fc1c149afbf4c8996fb92427ae41e4649b934ca495991b7852b855'']])"
proof -
  let ?abc = "[0x61, 0x62, 0x63] :: byte list"
  let ?link = "File Irregular (Some [])"
  let ?tree = "Dir [(''a.bin'', File Regular (Some ?abc)), (''hashes.csv'', Manifest),
    (''logs'', Dir [(''link'', ?link)])]"
  have sp: "StoragePath stagedAcquisition = ''/opt/q/id''"
    by (simp add: stagedAcquisition_def)
  have j: "Join ''/opt/q/id'' ''logs'' = ''/opt/q/id/logs''"
    "Join ''/opt/q/id/logs'' ''link'' = ''/opt/q/id/logs/link''"
    by code_simp+
  have m: "withManifest [(''a.bin'', File Regular (Some ?abc)), (''logs'', Dir [(''link'', ?link)])] =
      ?tree"
    by (simp add: withManifest_def)
  have c: "Create exampleSink (Join (StoragePath stagedAcquisition) ''hashes.csv'') = None"
    by (simp add: exampleSink_def)
  have e: "entries (StoragePath stagedAcquisition) ?tree =
      [(''/opt/q/id'', ?tree), (''/opt/q/id/a.bin'', File Regular (Some ?abc)),
       (''/opt/q/id/hashes.csv'', Manifest),
       (''/opt/q/id/logs'', Dir [(''link'', ?link)]),
       (''/opt/q/id/logs/link'', ?link)]"
    by (simp add: sp Join_examples j)
  have f: "files (StoragePath stagedAcquisition) ?tree =
      [(''/opt/q/id/a.bin'', File Regular (Some ?abc)), (''/opt/q/id/hashes.csv'', Manifest),
       (''/opt/q/id/logs/link'', ?link)]"
    unfolding files_def e by simp
  have r: "list_all (\<lambda>e. readable (snd e)) (entries (StoragePath stagedAcquisition) ?tree)"
    by (simp add: e readable_def)
  have w: "\<forall>w. \<not> writeFails exampleSink w"
    by (simp add: exampleSink_def)
  have rows: "manifestOf exampleSink [] (files (StoragePath stagedAcquisition) ?tree) =
      [[''/opt/q/id/a.bin'',
        ''ba7816bf8f01cfea414140de5dae2223b00361a396177a9cb410ff61f20015ad''],
       [''/opt/q/id/hashes.csv'',
        ''e3b0c44298fc1c149afbf4c8996fb92427ae41e4649b934ca495991b7852b855''],
       [''/opt/q/id/logs/link'',
        ''e3b0c44298fc1c149afbf4c8996fb92427ae41e4649b934ca495991b7852b855'']]"
    by (simp add: f content_def exampleSink_def hex_SHA256_empty hex_SHA256_abc)
  from HashFiles_manifest [OF c r w]
  have "HashFiles exampleSink stagedAcquisition ?tree =
      (None, Some (manifestOf exampleSink [] (files (StoragePath stagedAcquisition) ?tree)))"
    by blast
  then have "HashFiles exampleSink stagedAcquisition ?tree =
      (None, Some
       [[''/opt/q/id/a.bin'',
         ''ba7816bf8f01cfea414140de5dae2223b00361a396177a9cb410ff61f20015ad''],
        [''/opt/q/id/hashes.csv'',
         ''e3b0c44298fc1c149afbf4c8996fb92427ae41e4649b934ca495991b7852b855''],
        [''/opt/q/id/logs/link'',
         ''e3b0c44298fc1c149afbf4c8996fb92427ae41e4649b934ca495991b7852b855'']])"
    unfolding rows .
  with m f show ?thesis by blast
qed

text \<open>
  Claim C3, as the specification states it: the walk never hashes the manifest file
  and never records a row for it. In a storage directory that holds nothing but the
  \<open>hashes.csv\<close> just created, the csv writer accepts one row: the one of \<open>hashes.csv\<close>.
\<close>

theorem manifest_excluded_counterexample:
  "withManifest [] = Dir [(''hashes.csv'', Manifest)] \<and>
   HashFiles exampleSink stagedAcquisition (Dir [(''hashes.csv'', Manifest)]) =
     (None, Some
       [[''/opt/q/id/hashes.csv'',
         ''e3b0c44298fc1c149afbf4c8996fb92427ae41e4649b934ca495991b7852b855'']])"
  by (simp add: HashFiles_def Walk_def stagedAcquisition_def Join_examples withManifest_def
      hashWalkFn_def FileSHA256_def csvWrite_def exampleSink_def Let_def hex_SHA256_empty)

text \<open>
  Claim C3, amended: \<open>HashFiles\<close> does not exclude the manifest file from the walk. A
  \<open>hashes.csv\<close> created as a new entry of the storage directory is an entry of the
  walk, and whenever the walk reaches an entry that is the manifest file (the file was
  created, no entry before it raises an error) and the write succeeds, the csv writer
  holds a row for it, with the SHA-256 of the bytes flushed to the file up to that
  moment.
\<close>

theorem HashFiles_hashes_its_manifest:
  "(\<forall>es. (Join (StoragePath a) ''hashes.csv'', Manifest) \<in>
           set (entries (StoragePath a) (withManifest es))) \<and>
   (\<forall>path before rest w.
      Create env (Join (StoragePath a) ''hashes.csv'') = None \<and>
      entries (StoragePath a) tree = before @ (path, Manifest) # rest \<and>
      visitAll env before [] = (None, w) \<and> \<not> writeFails env w \<longrightarrow>
      (\<exists>rows. HashFiles env a tree = (None, Some rows) \<and>
         prefix (w @ [[path, hexEncode (SHA256 (flushed env w))]]) rows))"
proof -
  let ?sp = "StoragePath a"
  have "\<exists>rows. HashFiles env a tree = (None, Some rows) \<and>
      prefix (w @ [[path, hexEncode (SHA256 (flushed env w))]]) rows"
    if c: "Create env (Join ?sp ''hashes.csv'') = None"
      and e: "entries ?sp tree = before @ (path, Manifest) # rest"
      and b: "visitAll env before [] = (None, w)"
      and nf: "\<not> writeFails env w"
    for path before rest w
  proof -
    let ?w1 = "w @ [[path, hexEncode (SHA256 (flushed env w))]]"
    have v: "visit env (path, Manifest) w = (None, ?w1)"
      using nf visit_file_ok [of Manifest env w path] by (simp add: readable_def content_def)
    obtain r w2 where rest: "visitAll env rest ?w1 = (r, w2)"
      by (cases "visitAll env rest ?w1")
    then have "prefix ?w1 w2" by (rule visitAll_grows)
    moreover from e b v rest have "visitAll env (entries ?sp tree) [] = (r, w2)"
      by (simp add: visitAll_append)
    ultimately show ?thesis
      using c by (simp add: HashFiles_created)
  qed
  then show ?thesis using entries_withManifest by blast
qed

theorem HashFiles_hashes_its_manifest_witness:
  "withManifest [(''apks'', Dir [])] = Dir [(''apks'', Dir []), (''hashes.csv'', Manifest)] \<and>
   (''/opt/q/id/hashes.csv'', Manifest) \<in>
     set (entries ''/opt/q/id'' (Dir [(''apks'', Dir []), (''hashes.csv'', Manifest)])) \<and>
   (\<exists>rows. HashFiles exampleSink stagedAcquisition
        (Dir [(''apks'', Dir []), (''hashes.csv'', Manifest)]) = (None, Some rows) \<and>
      prefix [[''/opt/q/id/hashes.csv'', hexEncode (SHA256 [])]] rows)"
proof -
  let ?tree = "Dir [(''apks'', Dir []), (''hashes.csv'', Manifest)]"
  have sp: "StoragePath stagedAcquisition = ''/opt/q/id''"
    by (simp add: stagedAcquisition_def)
  have j: "Join ''/opt/q/id'' ''apks'' = ''/opt/q/id/apks''"
    by code_simp
  have m: "withManifest [(''apks'', Dir [])] = ?tree"
    by (simp add: withManifest_def)
  have c: "Create exampleSink (Join (StoragePath stagedAcquisition) ''hashes.csv'') = None"
    by (simp add: exampleSink_def)
  have e: "entries (StoragePath stagedAcquisition) ?tree =
      [(''/opt/q/id'', ?tree), (''/opt/q/id/apks'', Dir [])] @
      (''/opt/q/id/hashes.csv'', Manifest) # []"
    by (simp add: sp Join_examples j)
  have b: "visitAll exampleSink [(''/opt/q/id'', ?tree), (''/opt/q/id/apks'', Dir [])] [] =
      (None, [])"
    by (simp add: visit_def hashWalkFn_def)
  have nf: "\<not> writeFails exampleSink []"
    by (simp add: exampleSink_def)
  have fl: "flushed exampleSink [] = []"
    by (simp add: exampleSink_def)
  from HashFiles_hashes_its_manifest [of stagedAcquisition exampleSink ?tree] c e b nf
  have "(Join (StoragePath stagedAcquisition) ''hashes.csv'', Manifest) \<in>
      set (entries (StoragePath stagedAcquisition) (withManifest [(''apks'', Dir [])])) \<and>
    (\<exists>rows. HashFiles exampleSink stagedAcquisition ?tree = (None, Some rows) \<and>
      prefix ([] @ [[''/opt/q/id/hashes.csv'',
        hexEncode (SHA256 (flushed exampleSink []))]]) rows)"
    by blast
  then show ?thesis by (simp add: sp Join_examples fl m)
qed

section \<open>Properties of the metadata persister\<close>









end
